theory Spec2Isabelle
  imports Main
begin

section \<open>Data model\<close>

subsection \<open>Type descriptors\<close>

text \<open>
  Modelled from the spec: the type descriptors (section 6, the type system) are declared
  outside the sources. These are the ones that the sequence handler meets: the integer
  types, a string type (a scalar that is not an integer), arrays, and the nullable
  wrapper. The handler itself only builds \<open>DataTypeInt32\<close> (its constants) and the
  nullable wrapping of the range type, and only asks a type whether it is nullable.
\<close>

datatype DataType =
    DataTypeUInt8
  | DataTypeInt8
  | DataTypeInt16
  | DataTypeInt32
  | DataTypeInt64
  | DataTypeString
  | DataTypeArray DataType
  | DataTypeNullable DataType

fun isNullable :: "DataType \<Rightarrow> bool" where
  "isNullable (DataTypeNullable t) = True"
| "isNullable t = False"

fun removeNullable :: "DataType \<Rightarrow> DataType" where
  "removeNullable (DataTypeNullable t) = removeNullable t"
| "removeNullable t = t"

definition makeNullable :: "DataType \<Rightarrow> DataType" where
  "makeNullable t = (if isNullable t then t else DataTypeNullable t)"

fun is_integer :: "DataType \<Rightarrow> bool" where
  "is_integer DataTypeUInt8 = True"
| "is_integer DataTypeInt8 = True"
| "is_integer DataTypeInt16 = True"
| "is_integer DataTypeInt32 = True"
| "is_integer DataTypeInt64 = True"
| "is_integer t = False"

subsection \<open>Values, nodes and the builder\<close>

text \<open>
  A \<open>Field\<close> is one value of a row: null, an integer, or an array of integers. Integers
  are mathematical integers: the widths that the engine's promotion table assigns are an
  external contract and no width is fixed here.
\<close>

datatype Field = Null | Int64 int | Array "int list"

text \<open>
  Modelled from the spec: the node of the graph (section 3) is declared outside the
  sources. A node is an input column, a typed constant or a function application, and
  carries its result type. A node is identified by a canonical name derived from its
  operation and its operands, so the model takes the term itself as the node's name and
  identity: a pointer to a node of the graph is the node, and its children are the
  subterms.
\<close>

datatype Node =
    INPUT string DataType
  | COLUMN DataType Field
  | FUNCTION string DataType "Node list"

fun result_type :: "Node \<Rightarrow> DataType" where
  "result_type (INPUT n t) = t"
| "result_type (COLUMN t v) = t"
| "result_type (FUNCTION f t args) = t"

type_synonym ActionsDAG = "Node list"

datatype Exception =
    NUMBER_OF_ARGUMENTS_DOESNT_MATCH string
  | TYPE_MISMATCH string
  | ARGUMENT_OUT_OF_BOUND string
  | ILLEGAL_DIVISION
  | ILLEGAL_TYPE_OF_ARGUMENT string

text \<open>
  Every operation of the handler works on the builder it was given by reference. An
  operation returns its result or the exception it threw, together with the builder as it
  is at that moment: what was added before a throw stays added.
\<close>

type_synonym 'a build = "ActionsDAG \<Rightarrow> (Exception + 'a) \<times> ActionsDAG"

definition return_b :: "'a \<Rightarrow> 'a build" where
  "return_b x dag = (Inr x, dag)"

definition throw_b :: "Exception \<Rightarrow> 'a build" where
  "throw_b e dag = (Inl e, dag)"

definition bind_b :: "'a build \<Rightarrow> ('a \<Rightarrow> 'b build) \<Rightarrow> 'b build" where
  "bind_b m f dag =
     (case m dag of
        (Inl e, dag') \<Rightarrow> (Inl e, dag')
      | (Inr x, dag') \<Rightarrow> f x dag')"

subsection \<open>Result types of the engine's functions\<close>

text \<open>
  Modelled from the spec: the type resolution of \<open>addFunction\<close> (section 4.1) is not in
  the sources. A function application inherits nullability if any argument is nullable
  and promotes numeric width; \<open>isNull\<close> is a predicate and \<open>assumeNotNull\<close> strips the
  nullable wrapper (section 4.4, step 3). An application that the engine cannot type
  has no result type.
\<close>

fun signed_bits :: "DataType \<Rightarrow> nat" where
  "signed_bits DataTypeUInt8 = 9"
| "signed_bits DataTypeInt8 = 8"
| "signed_bits DataTypeInt16 = 16"
| "signed_bits DataTypeInt32 = 32"
| "signed_bits DataTypeInt64 = 64"
| "signed_bits t = 0"

definition promote :: "DataType \<Rightarrow> DataType \<Rightarrow> DataType" where
  "promote a b =
     (if a = b then a
      else (let n = max (signed_bits a) (signed_bits b)
            in if n \<le> 8 then DataTypeInt8
               else if n \<le> 16 then DataTypeInt16
               else if n \<le> 32 then DataTypeInt32
               else DataTypeInt64))"

fun least_supertype :: "DataType \<Rightarrow> DataType \<Rightarrow> DataType option" where
  "least_supertype (DataTypeArray a) (DataTypeArray b) =
     map_option DataTypeArray (least_supertype a b)"
| "least_supertype a b =
     (if a = b then Some a
      else if is_integer a \<and> is_integer b then Some (promote a b)
      else None)"

fun multiIf_type :: "DataType list \<Rightarrow> DataType option" where
  "multiIf_type [] = None"
| "multiIf_type [e] = Some e"
| "multiIf_type (c # v # rest) =
     (if c = DataTypeUInt8
      then (case multiIf_type rest of
              None \<Rightarrow> None
            | Some t \<Rightarrow> least_supertype v t)
      else None)"

definition base_result_type :: "string \<Rightarrow> DataType list \<Rightarrow> DataType option" where
  "base_result_type f ts =
     (if f = ''plus'' \<or> f = ''minus'' \<or> f = ''modulo'' then
        (case ts of
           [a, b] \<Rightarrow> if is_integer a \<and> is_integer b then Some (promote a b) else None
         | _ \<Rightarrow> None)
      else if f = ''lessOrEquals'' \<or> f = ''equals'' then
        (case ts of
           [a, b] \<Rightarrow> if is_integer a \<and> is_integer b then Some DataTypeUInt8 else None
         | _ \<Rightarrow> None)
      else if f = ''if'' then
        (case ts of
           [c, a, b] \<Rightarrow> if c = DataTypeUInt8 then least_supertype a b else None
         | _ \<Rightarrow> None)
      else if f = ''multiIf'' then
        (if 3 \<le> length ts then multiIf_type ts else None)
      else if f = ''range'' then
        (case ts of
           [a, b, c] \<Rightarrow>
             if is_integer a \<and> is_integer b \<and> is_integer c
             then Some (DataTypeArray (promote (promote a b) c))
             else None
         | _ \<Rightarrow> None)
      else None)"

definition function_result_type :: "string \<Rightarrow> DataType list \<Rightarrow> DataType option" where
  "function_result_type f ts =
     (if f = ''isNull'' then
        (case ts of [t] \<Rightarrow> Some DataTypeUInt8 | _ \<Rightarrow> None)
      else if f = ''assumeNotNull'' then
        (case ts of [t] \<Rightarrow> Some (removeNullable t) | _ \<Rightarrow> None)
      else
        (case base_result_type f (map removeNullable ts) of
           None \<Rightarrow> None
         | Some t \<Rightarrow> Some (if list_ex isNullable ts then makeNullable t else t)))"

text \<open>
  Modelled from the spec: which conversions \<open>convertType\<close> accepts (section 4.1) is not in
  the sources. Integers convert to integers, arrays elementwise, and nullability never
  stands in the way.
\<close>

fun convertible :: "DataType \<Rightarrow> DataType \<Rightarrow> bool" where
  "convertible (DataTypeNullable a) b = convertible a b"
| "convertible (DataTypeArray a) (DataTypeNullable b) = convertible (DataTypeArray a) b"
| "convertible (DataTypeArray a) (DataTypeArray b) = convertible a b"
| "convertible (DataTypeArray a) b = False"
| "convertible a (DataTypeNullable b) = convertible a b"
| "convertible a b = (a = b \<or> (is_integer a \<and> is_integer b))"

subsection \<open>Builder operations\<close>

text \<open>
  Modelled from the spec: \<open>addColumnToActionsDAG\<close>, \<open>toFunctionNode\<close> and
  \<open>ActionsDAGUtil::convertNodeType\<close> are declared outside the sources. Following section
  4.1, adding a node that the builder already holds returns that node and leaves the
  builder as it is; otherwise the node is appended. \<open>toFunctionNode\<close> fails where the
  application has no result type, \<open>convertNodeType\<close> where the conversion is refused.
\<close>

definition insert_node :: "Node \<Rightarrow> ActionsDAG \<Rightarrow> ActionsDAG" where
  "insert_node n dag = (if n \<in> set dag then dag else dag @ [n])"

definition addNode :: "Node \<Rightarrow> Node build" where
  "addNode n dag = (Inr n, insert_node n dag)"

definition addColumnToActionsDAG :: "DataType \<Rightarrow> Field \<Rightarrow> Node build" where
  "addColumnToActionsDAG t v = addNode (COLUMN t v)"

definition toFunctionNode :: "string \<Rightarrow> Node list \<Rightarrow> Node build" where
  "toFunctionNode f args =
     (case function_result_type f (map result_type args) of
        None \<Rightarrow> throw_b (TYPE_MISMATCH f)
      | Some t \<Rightarrow> addNode (FUNCTION f t args))"

definition convertNodeType :: "Node \<Rightarrow> DataType \<Rightarrow> Node build" where
  "convertNodeType node target =
     (if convertible (result_type node) target
      then addNode (FUNCTION ''CAST'' target [node])
      else throw_b (TYPE_MISMATCH ''CAST''))"

section \<open>The sequence handler\<close>

subsection \<open>The serialized call\<close>

text \<open>
  Modelled from the spec: the serialized call (section 6) and \<open>parseFunctionArguments\<close>
  are declared outside the sources. A call carries its argument expressions and the
  result type that the caller expects. An argument is a literal, which is translated into
  a constant of the builder, or an expression whose node the builder already holds (a
  column reference, or a nested call that its own handler translated).
\<close>

datatype Expression = Literal DataType Field | Translated Node

record Expression_ScalarFunction =
  arguments :: "Expression list"
  output_type :: DataType

fun parseExpression :: "Expression \<Rightarrow> Node build" where
  "parseExpression (Literal t v) = addColumnToActionsDAG t v"
| "parseExpression (Translated n) = return_b n"

fun parseExpressions :: "Expression list \<Rightarrow> Node list build" where
  "parseExpressions [] = return_b []"
| "parseExpressions (e # es) =
     bind_b (parseExpression e) (\<lambda>n.
     bind_b (parseExpressions es) (\<lambda>ns.
     return_b (n # ns)))"

definition parseFunctionArguments :: "Expression_ScalarFunction \<Rightarrow> Node list build" where
  "parseFunctionArguments substrait_func = parseExpressions (arguments substrait_func)"

text \<open>
  Modelled from the spec: \<open>convertNodeTypeIfNeeded\<close> is declared outside the sources. It
  applies the coercion that the caller's expected result type requires (section 4.4,
  step 6): none when the node already has that type.
\<close>

definition convertNodeTypeIfNeeded :: "Expression_ScalarFunction \<Rightarrow> Node \<Rightarrow> Node build" where
  "convertNodeTypeIfNeeded substrait_func func_node =
     (if output_type substrait_func = result_type func_node
      then return_b func_node
      else convertNodeType func_node (output_type substrait_func))"

subsection \<open>FunctionParserSequence::parse\<close>

definition getName :: string where
  "getName = ''sequence''"

text \<open>
  The default step of a call with two arguments: the constant \<open>-1\<close>, the comparison and
  the conditional are added to the builder, in this order.
\<close>

definition default_step :: "Node \<Rightarrow> Node \<Rightarrow> Node \<Rightarrow> Node build" where
  "default_step start_arg end_arg one_const_node =
     bind_b (addColumnToActionsDAG DataTypeInt32 (Int64 (- 1))) (\<lambda>minus_one_const_node.
     bind_b (toFunctionNode ''lessOrEquals'' [start_arg, end_arg]) (\<lambda>start_le_end_node.
     bind_b (toFunctionNode ''if'' [start_le_end_node, one_const_node, minus_one_const_node])
       (\<lambda>step_if_node.
     return_b step_if_node)))"

text \<open>The local variables of \<open>parse\<close> that hold nodes, once the two ranges are built.\<close>

record sequence_nodes =
  start_arg :: Node
  end_arg :: Node
  step_arg :: Node
  one_const_node :: Node
  start_not_null_node :: Node
  end_not_null_node :: Node
  step_not_null_node :: Node
  start_is_null_node :: Node
  end_is_null_node :: Node
  step_is_null_node :: Node
  end_minus_start_node :: Node
  modulo_step_node :: Node
  zero_const_node :: Node
  modulo_step_eq_zero_node :: Node
  tricky_step_node :: Node
  end_plus_step_node :: Node
  range_1_node :: Node
  range_2_node :: Node

text \<open>
  The first part of \<open>parse\<close>: the arguments are translated, their number is checked, the
  step is defaulted, and every node up to the two ranges is added to the builder.
\<close>

definition build_ranges :: "Expression_ScalarFunction \<Rightarrow> sequence_nodes build" where
  "build_ranges substrait_func =
     bind_b (parseFunctionArguments substrait_func) (\<lambda>parsed_args.
     if length parsed_args < 2 \<or> length parsed_args > 3
     then throw_b (NUMBER_OF_ARGUMENTS_DOESNT_MATCH
            (''Function '' @ getName @ '' requires two or three arguments''))
     else
     Let (parsed_args ! 0) (\<lambda>start_arg.
     Let (parsed_args ! 1) (\<lambda>end_arg.
     bind_b (addColumnToActionsDAG DataTypeInt32 (Int64 1)) (\<lambda>one_const_node.
     bind_b (if length parsed_args = 3 then return_b (parsed_args ! 2)
             else default_step start_arg end_arg one_const_node) (\<lambda>step_arg.
     bind_b (toFunctionNode ''assumeNotNull'' [start_arg]) (\<lambda>start_not_null_node.
     bind_b (toFunctionNode ''assumeNotNull'' [end_arg]) (\<lambda>end_not_null_node.
     bind_b (toFunctionNode ''assumeNotNull'' [step_arg]) (\<lambda>step_not_null_node.
     bind_b (toFunctionNode ''isNull'' [start_arg]) (\<lambda>start_is_null_node.
     bind_b (toFunctionNode ''isNull'' [end_arg]) (\<lambda>end_is_null_node.
     bind_b (toFunctionNode ''isNull'' [step_arg]) (\<lambda>step_is_null_node.
     bind_b (toFunctionNode ''minus'' [end_arg, start_arg]) (\<lambda>end_minus_start_node.
     bind_b (toFunctionNode ''modulo'' [end_minus_start_node, step_arg]) (\<lambda>modulo_step_node.
     bind_b (addColumnToActionsDAG DataTypeInt32 (Int64 0)) (\<lambda>zero_const_node.
     bind_b (toFunctionNode ''equals'' [modulo_step_node, zero_const_node])
       (\<lambda>modulo_step_eq_zero_node.
     bind_b (toFunctionNode ''if'' [step_is_null_node, one_const_node, step_not_null_node])
       (\<lambda>tricky_step_node.
     bind_b (toFunctionNode ''plus'' [end_not_null_node, step_not_null_node])
       (\<lambda>end_plus_step_node.
     bind_b (toFunctionNode ''range'' [start_not_null_node, end_plus_step_node, tricky_step_node])
       (\<lambda>range_1_node.
     bind_b (toFunctionNode ''range'' [start_not_null_node, end_not_null_node, tricky_step_node])
       (\<lambda>range_2_node.
     return_b \<lparr>
       start_arg = start_arg,
       end_arg = end_arg,
       step_arg = step_arg,
       one_const_node = one_const_node,
       start_not_null_node = start_not_null_node,
       end_not_null_node = end_not_null_node,
       step_not_null_node = step_not_null_node,
       start_is_null_node = start_is_null_node,
       end_is_null_node = end_is_null_node,
       step_is_null_node = step_is_null_node,
       end_minus_start_node = end_minus_start_node,
       modulo_step_node = modulo_step_node,
       zero_const_node = zero_const_node,
       modulo_step_eq_zero_node = modulo_step_eq_zero_node,
       tricky_step_node = tricky_step_node,
       end_plus_step_node = end_plus_step_node,
       range_1_node = range_1_node,
       range_2_node = range_2_node
     \<rparr>)))))))))))))))))))"

text \<open>
  The second part: the node that \<open>parse\<close> hands to \<open>convertNodeTypeIfNeeded\<close>. The three
  flags are read from the declared types of the arguments.
\<close>

definition select_range :: "sequence_nodes \<Rightarrow> Node build" where
  "select_range v =
     (let is_arr_nullable = isNullable (result_type (start_arg v));
          is_val_nullable = isNullable (result_type (end_arg v));
          is_step_nullable = isNullable (result_type (step_arg v))
      in
      if \<not> is_arr_nullable \<and> \<not> is_val_nullable \<and> \<not> is_step_nullable
      then
        toFunctionNode ''if''
          [modulo_step_eq_zero_node v, range_1_node v, range_2_node v]
      else
        let result_type' = makeNullable (result_type (range_1_node v)) in
        bind_b (convertNodeType (range_1_node v) result_type') (\<lambda>wrap_range_1_node.
        bind_b (convertNodeType (range_2_node v) result_type') (\<lambda>wrap_range_2_node.
        bind_b (addColumnToActionsDAG result_type' Null) (\<lambda>null_const_node.
        toFunctionNode ''multiIf''
          [start_is_null_node v, null_const_node,
           end_is_null_node v, null_const_node,
           step_is_null_node v, null_const_node,
           modulo_step_eq_zero_node v, wrap_range_1_node,
           wrap_range_2_node]))))"

definition parse :: "Expression_ScalarFunction \<Rightarrow> Node build" where
  "parse substrait_func =
     bind_b (build_ranges substrait_func) (\<lambda>v.
     bind_b (select_range v) (\<lambda>ret_node.
     convertNodeTypeIfNeeded substrait_func ret_node))"

section \<open>Evaluation of a node on a row\<close>

text \<open>
  Modelled from the spec: the engine's primitives (section 6) are not in the sources.
  \<open>range(a, b, c)\<close> is the half-open progression from \<open>a\<close> towards \<open>b\<close> in steps of \<open>c\<close>,
  ascending or descending; arithmetic, comparison and \<open>range\<close> return null when an argument
  is null; a conditional takes a null condition as false; a conversion keeps the value.
  The comment in \<open>parse\<close> on the step of the ranges fixes three more points: the
  arguments of a function are evaluated before the function is (a range is computed on
  rows whose result a later guard discards), \<open>range\<close> throws on a step of zero, and
  \<open>assumeNotNull\<close> of a null integer is the default value zero. The remainder is the
  truncating one of the engine's implementation language, and division by zero throws.
\<close>

definition c_modulo :: "int \<Rightarrow> int \<Rightarrow> int" where
  "c_modulo a b = sgn a * (\<bar>a\<bar> mod \<bar>b\<bar>)"

definition range_values :: "int \<Rightarrow> int \<Rightarrow> int \<Rightarrow> int list" where
  "range_values a b s =
     (if 0 < s
      then map (\<lambda>k. a + int k * s) [0 ..< nat ((b - a + s - 1) div s)]
      else map (\<lambda>k. a + int k * s) [0 ..< nat ((a - b + (- s) - 1) div (- s))])"

fun default_field :: "DataType \<Rightarrow> Field" where
  "default_field (DataTypeArray t) = Array []"
| "default_field t = Int64 0"

fun range_function :: "Field list \<Rightarrow> Exception + Field" where
  "range_function [Int64 a, Int64 b, Int64 s] =
     (if s = 0 then Inl (ARGUMENT_OUT_OF_BOUND ''range'')
      else Inr (Array (range_values a b s)))"
| "range_function vs = Inl (ILLEGAL_TYPE_OF_ARGUMENT ''range'')"

fun binary_function :: "string \<Rightarrow> Field list \<Rightarrow> Exception + Field" where
  "binary_function f [Int64 a, Int64 b] =
     (if f = ''plus'' then Inr (Int64 (a + b))
      else if f = ''minus'' then Inr (Int64 (a - b))
      else if f = ''modulo'' then
        (if b = 0 then Inl ILLEGAL_DIVISION else Inr (Int64 (c_modulo a b)))
      else if f = ''lessOrEquals'' then Inr (Int64 (if a \<le> b then 1 else 0))
      else if f = ''equals'' then Inr (Int64 (if a = b then 1 else 0))
      else Inl (ILLEGAL_TYPE_OF_ARGUMENT f))"
| "binary_function f vs = Inl (ILLEGAL_TYPE_OF_ARGUMENT f)"

fun if_function :: "Field list \<Rightarrow> Exception + Field" where
  "if_function [Int64 c, a, b] = Inr (if c \<noteq> 0 then a else b)"
| "if_function [Null, a, b] = Inr b"
| "if_function vs = Inl (ILLEGAL_TYPE_OF_ARGUMENT ''if'')"

fun multiIf_function :: "Field list \<Rightarrow> Exception + Field" where
  "multiIf_function [e] = Inr e"
| "multiIf_function (Int64 c # v # rest) = (if c \<noteq> 0 then Inr v else multiIf_function rest)"
| "multiIf_function (Null # v # rest) = multiIf_function rest"
| "multiIf_function vs = Inl (ILLEGAL_TYPE_OF_ARGUMENT ''multiIf'')"

definition apply_function :: "string \<Rightarrow> DataType \<Rightarrow> Field list \<Rightarrow> Exception + Field" where
  "apply_function f t vs =
     (if f = ''isNull'' then
        (case vs of
           [v] \<Rightarrow> Inr (Int64 (if v = Null then 1 else 0))
         | _ \<Rightarrow> Inl (ILLEGAL_TYPE_OF_ARGUMENT f))
      else if f = ''assumeNotNull'' then
        (case vs of
           [v] \<Rightarrow> Inr (if v = Null then default_field t else v)
         | _ \<Rightarrow> Inl (ILLEGAL_TYPE_OF_ARGUMENT f))
      else if f = ''CAST'' then
        (case vs of
           [v] \<Rightarrow> Inr v
         | _ \<Rightarrow> Inl (ILLEGAL_TYPE_OF_ARGUMENT f))
      else if f = ''if'' then if_function vs
      else if f = ''multiIf'' then multiIf_function vs
      else if Null \<in> set vs then Inr Null
      else if f = ''range'' then range_function vs
      else binary_function f vs)"

fun eval :: "(string \<Rightarrow> Field) \<Rightarrow> Node \<Rightarrow> Exception + Field"
  and eval_list :: "(string \<Rightarrow> Field) \<Rightarrow> Node list \<Rightarrow> Exception + Field list" where
  "eval row (INPUT n t) = Inr (row n)"
| "eval row (COLUMN t v) = Inr v"
| "eval row (FUNCTION f t args) =
     (case eval_list row args of
        Inl e \<Rightarrow> Inl e
      | Inr vs \<Rightarrow> apply_function f t vs)"
| "eval_list row [] = Inr []"
| "eval_list row (a # as) =
     (case eval row a of
        Inl e \<Rightarrow> Inl e
      | Inr v \<Rightarrow>
          (case eval_list row as of
             Inl e \<Rightarrow> Inl e
           | Inr vs \<Rightarrow> Inr (v # vs)))"

text \<open>A call is translated into the builder and the returned node is evaluated on a row.\<close>

definition evaluate :: "(string \<Rightarrow> Field) \<Rightarrow> Expression_ScalarFunction \<Rightarrow> ActionsDAG
    \<Rightarrow> Exception + Field" where
  "evaluate row substrait_func dag =
     (case fst (parse substrait_func dag) of
        Inl e \<Rightarrow> Inl e
      | Inr node \<Rightarrow> eval row node)"

section \<open>The right-hand sample block of a join storage\<close>

text \<open>
  \<open>StorageJoinFromReadBuffer\<close> keeps the metadata of the stored table, whether the join
  fills unmatched rows with nulls, and the kind of the join. The join kinds, the test
  \<open>isLeftOrFull\<close> and the block of columns are the engine's; the conversion of one column
  to a nullable one, \<open>JoinCommon::convertColumnToNullable\<close>, is the engine's as well and
  is a parameter here. The member \<open>storage_metadata\<close> is the source's member of this name
  with a trailing underscore. The strictness and the members that hold handles of the
  engine (the size limits, the analysed join, the hash join and the read buffer) are left
  to the extension of the record.
\<close>

datatype JoinKind = Inner | Left | Right | Full | Cross | Comma

fun isLeftOrFull :: "JoinKind \<Rightarrow> bool" where
  "isLeftOrFull Left = True"
| "isLeftOrFull Full = True"
| "isLeftOrFull k = False"

record ColumnWithTypeAndName =
  column_name :: string
  column_type :: DataType

type_synonym Block = "ColumnWithTypeAndName list"

record StorageInMemoryMetadata =
  metadata_columns :: Block

definition getSampleBlock :: "StorageInMemoryMetadata \<Rightarrow> Block" where
  "getSampleBlock metadata = metadata_columns metadata"

record StorageJoinFromReadBuffer =
  storage_metadata :: StorageInMemoryMetadata
  sample_block :: Block
  key_names :: "string list"
  use_nulls :: bool
  kind :: JoinKind
  overwrite :: bool

text \<open>
  \<open>getRightSampleBlock\<close> copies the sample block of the metadata into a local block,
  converts every column of the local block in place when nulls are used and the kind is
  left or full, and returns the local block. The object is returned next to the block,
  as the method leaves it.
\<close>

definition getRightSampleBlock ::
  "(ColumnWithTypeAndName \<Rightarrow> ColumnWithTypeAndName) \<Rightarrow> 'a StorageJoinFromReadBuffer_scheme
     \<Rightarrow> Block \<times> 'a StorageJoinFromReadBuffer_scheme" where
  "getRightSampleBlock convertColumnToNullable this =
     (let block = getSampleBlock (storage_metadata this);
          block = (if use_nulls this \<and> isLeftOrFull (kind this)
                   then map convertColumnToNullable block
                   else block)
      in (block, this))"

section \<open>Notions used in the statements\<close>

subsection \<open>Shapes of nodes\<close>

text \<open>
  The node that an argument expression is translated to, and whether the expression was
  translated before the call.
\<close>

fun expr_node :: "Expression \<Rightarrow> Node" where
  "expr_node (Literal t v) = COLUMN t v"
| "expr_node (Translated n) = n"

fun is_translated :: "Expression \<Rightarrow> bool" where
  "is_translated (Translated n) = True"
| "is_translated (Literal t v) = False"

fun children :: "Node \<Rightarrow> Node list" where
  "children (FUNCTION f t args) = args"
| "children n = []"

text \<open>
  \<open>application f args n\<close>: the node \<open>n\<close> is the function \<open>f\<close> applied to the nodes
  \<open>args\<close>, with the result type that the engine gives this application.
\<close>

definition application :: "string \<Rightarrow> Node list \<Rightarrow> Node \<Rightarrow> bool" where
  "application f args n =
     (n = FUNCTION f (result_type n) args \<and>
      function_result_type f (map result_type args) = Some (result_type n))"

text \<open>The default step: \<open>if(lessOrEquals(start, end), 1, -1)\<close>.\<close>

definition default_step_built :: "Node \<Rightarrow> Node \<Rightarrow> Node \<Rightarrow> bool" where
  "default_step_built s e step =
     (application ''lessOrEquals'' [s, e] (hd (children step)) \<and>
      application ''if''
        [hd (children step), COLUMN DataTypeInt32 (Int64 1), COLUMN DataTypeInt32 (Int64 (- 1))]
        step)"

text \<open>The local nodes of \<open>parse\<close>, each as the application that the source builds.\<close>

definition ranges_built :: "sequence_nodes \<Rightarrow> bool" where
  "ranges_built v =
     (one_const_node v = COLUMN DataTypeInt32 (Int64 1) \<and>
      application ''assumeNotNull'' [start_arg v] (start_not_null_node v) \<and>
      application ''assumeNotNull'' [end_arg v] (end_not_null_node v) \<and>
      application ''assumeNotNull'' [step_arg v] (step_not_null_node v) \<and>
      application ''isNull'' [start_arg v] (start_is_null_node v) \<and>
      application ''isNull'' [end_arg v] (end_is_null_node v) \<and>
      application ''isNull'' [step_arg v] (step_is_null_node v) \<and>
      application ''minus'' [end_arg v, start_arg v] (end_minus_start_node v) \<and>
      application ''modulo'' [end_minus_start_node v, step_arg v] (modulo_step_node v) \<and>
      zero_const_node v = COLUMN DataTypeInt32 (Int64 0) \<and>
      application ''equals'' [modulo_step_node v, zero_const_node v] (modulo_step_eq_zero_node v) \<and>
      application ''if'' [step_is_null_node v, one_const_node v, step_not_null_node v]
        (tricky_step_node v) \<and>
      application ''plus'' [end_not_null_node v, step_not_null_node v] (end_plus_step_node v) \<and>
      application ''range'' [start_not_null_node v, end_plus_step_node v, tricky_step_node v]
        (range_1_node v) \<and>
      application ''range'' [start_not_null_node v, end_not_null_node v, tricky_step_node v]
        (range_2_node v))"

text \<open>
  The three flags of \<open>parse\<close> taken together, the null constant and the widened ranges of
  its nullable branch, and the node that it selects.
\<close>

definition any_nullable :: "sequence_nodes \<Rightarrow> bool" where
  "any_nullable v =
     (isNullable (result_type (start_arg v)) \<or>
      isNullable (result_type (end_arg v)) \<or>
      isNullable (result_type (step_arg v)))"

definition null_const :: "sequence_nodes \<Rightarrow> Node" where
  "null_const v = COLUMN (makeNullable (result_type (range_1_node v))) Null"

definition wrap_range :: "sequence_nodes \<Rightarrow> Node \<Rightarrow> Node" where
  "wrap_range v r = FUNCTION ''CAST'' (makeNullable (result_type (range_1_node v))) [r]"

definition selected :: "sequence_nodes \<Rightarrow> Node \<Rightarrow> bool" where
  "selected v ret =
     (if any_nullable v
      then application ''multiIf''
             [start_is_null_node v, null_const v,
              end_is_null_node v, null_const v,
              step_is_null_node v, null_const v,
              modulo_step_eq_zero_node v, wrap_range v (range_1_node v),
              wrap_range v (range_2_node v)] ret
      else application ''if''
             [modulo_step_eq_zero_node v, range_1_node v, range_2_node v] ret)"

subsection \<open>Types and values of arguments\<close>

text \<open>
  Types of arguments that the engine accepts for a sequence, up to nullability, and the
  values that such arguments take on a row. \<open>assumed_integer\<close> is the integer that
  \<open>assumeNotNull\<close> returns for such a value; \<open>null_or\<close> is the result of a function
  that returns null when an argument is null.
\<close>

definition integer_type :: "DataType \<Rightarrow> bool" where
  "integer_type t = is_integer (removeNullable t)"

definition boolean_type :: "DataType \<Rightarrow> bool" where
  "boolean_type t = (removeNullable t = DataTypeUInt8)"

definition integer_array_type :: "DataType \<Rightarrow> bool" where
  "integer_array_type t =
     (case removeNullable t of DataTypeArray e \<Rightarrow> is_integer e | _ \<Rightarrow> False)"

fun integer_or_null :: "Field \<Rightarrow> bool" where
  "integer_or_null (Array xs) = False"
| "integer_or_null v = True"

fun assumed_integer :: "Field \<Rightarrow> int" where
  "assumed_integer (Int64 n) = n"
| "assumed_integer v = 0"

definition null_or :: "Field list \<Rightarrow> Field \<Rightarrow> Field" where
  "null_or vs x = (if Null \<in> set vs then Null else x)"

subsection \<open>The progression of the specification\<close>

text \<open>
  Following the words of the specification: the progression from \<open>start\<close> towards \<open>end\<close>
  in steps of \<open>step\<close>, that is the terms \<open>start + k * step\<close> that do not pass \<open>end\<close>. It
  is compared with what the node built from the source evaluates to.
\<close>

definition progression :: "int \<Rightarrow> int \<Rightarrow> int \<Rightarrow> int list" where
  "progression s e st = map (\<lambda>k. s + int k * st) [0 ..< Suc (nat ((e - s) div st))]"

text \<open>A row of a table without columns, for calls whose arguments are literals.\<close>

definition empty_row :: "string \<Rightarrow> Field" where
  "empty_row name = Null"

subsection \<open>Stages of a call, for closed statements\<close>

text \<open>
  The local nodes of \<open>parse\<close> for a call, and the node that it selects before the
  coercion, when the call gets that far.
\<close>

definition built_nodes :: "Expression_ScalarFunction \<Rightarrow> ActionsDAG \<Rightarrow> sequence_nodes option" where
  "built_nodes c dag =
     (case fst (build_ranges c dag) of Inl e \<Rightarrow> None | Inr v \<Rightarrow> Some v)"

definition selected_node :: "Expression_ScalarFunction \<Rightarrow> ActionsDAG \<Rightarrow> Node option" where
  "selected_node c dag =
     (case build_ranges c dag of
        (Inl e, d1) \<Rightarrow> None
      | (Inr v, d1) \<Rightarrow>
          (case fst (select_range v d1) of Inl e \<Rightarrow> None | Inr ret \<Rightarrow> Some ret))"

subsection \<open>Shapes that the specification describes\<close>

text \<open>
  Following the words of the specification, not the source: the remainder computed from
  the \<open>assumeNotNull\<close> projections, \<open>(end' - start') mod step'\<close>, and the bound of the
  inclusive range computed from the step of the ranges, \<open>end' + stepForRange\<close>. They are
  compared with the nodes that the source builds.
\<close>

definition remainder_from_projections :: "sequence_nodes \<Rightarrow> bool" where
  "remainder_from_projections v =
     (children (modulo_step_node v) = [end_minus_start_node v, step_not_null_node v] \<and>
      children (end_minus_start_node v) = [end_not_null_node v, start_not_null_node v])"

definition inclusive_bound_from_range_step :: "sequence_nodes \<Rightarrow> bool" where
  "inclusive_bound_from_range_step v =
     (children (end_plus_step_node v) = [end_not_null_node v, tricky_step_node v])"

subsection \<open>The subtree of a node and its null guards\<close>

text \<open>
  The nodes of the subtree that a node roots, and the nodes that guard against nulls: an
  application of \<open>isNull\<close>, a multi-way conditional, a null constant.
\<close>

fun function_name :: "Node \<Rightarrow> string" where
  "function_name (FUNCTION f t args) = f"
| "function_name n = []"

fun subnodes :: "Node \<Rightarrow> Node list" where
  "subnodes (FUNCTION f t args) = FUNCTION f t args # concat (map subnodes args)"
| "subnodes (INPUT n t) = [INPUT n t]"
| "subnodes (COLUMN t v) = [COLUMN t v]"

fun is_null_guard :: "Node \<Rightarrow> bool" where
  "is_null_guard (FUNCTION f t args) = (f = ''isNull'' \<or> f = ''multiIf'')"
| "is_null_guard (COLUMN t v) = (v = Null)"
| "is_null_guard (INPUT n t) = False"

definition has_null_guard :: "Node \<Rightarrow> bool" where
  "has_null_guard n = list_ex is_null_guard (subnodes n)"

section \<open>Lemmas\<close>

subsection \<open>Type descriptors\<close>

lemma isNullable_removeNullable [simp]: "\<not> isNullable (removeNullable t)"
  by (induction t) auto

lemma removeNullable_idem [simp]: "removeNullable (removeNullable t) = removeNullable t"
  by (induction t) auto

lemma removeNullable_makeNullable [simp]: "removeNullable (makeNullable t) = removeNullable t"
  by (cases t) (auto simp: makeNullable_def)

lemma isNullable_makeNullable [simp]: "isNullable (makeNullable t)"
  by (cases t) (auto simp: makeNullable_def)

lemma removeNullable_id: "\<not> isNullable t \<Longrightarrow> removeNullable t = t"
  by (cases t) auto

lemma is_integer_not_nullable: "is_integer t \<Longrightarrow> \<not> isNullable t"
  by (cases t) auto

lemma is_integer_promote: "is_integer a \<Longrightarrow> is_integer b \<Longrightarrow> is_integer (promote a b)"
  by (auto simp: promote_def Let_def)

lemma least_supertype_refl [simp]: "least_supertype a a = Some a"
  by (induction a) auto

lemma least_supertype_not_nullable:
  "least_supertype a b = Some t \<Longrightarrow> \<not> isNullable a \<Longrightarrow> \<not> isNullable b \<Longrightarrow> \<not> isNullable t"
  by (induction a b arbitrary: t rule: least_supertype.induct)
     (auto simp: promote_def Let_def split: if_splits)

lemma multiIf_type_not_nullable:
  "multiIf_type ts = Some t \<Longrightarrow> \<forall>x\<in>set ts. \<not> isNullable x \<Longrightarrow> \<not> isNullable t"
  by (induction ts arbitrary: t rule: multiIf_type.induct)
     (auto split: if_splits option.splits dest: least_supertype_not_nullable)

lemma base_result_type_not_nullable:
  "base_result_type f ts = Some t \<Longrightarrow> \<forall>x\<in>set ts. \<not> isNullable x \<Longrightarrow> \<not> isNullable t"
  unfolding base_result_type_def
  by (auto split: if_splits list.splits dest: least_supertype_not_nullable multiIf_type_not_nullable
      simp: promote_def Let_def)

lemma function_result_type_nullable:
  assumes "function_result_type f ts = Some t" "f \<noteq> ''isNull''" "f \<noteq> ''assumeNotNull''"
  shows "isNullable t = list_ex isNullable ts"
proof -
  from assms obtain b where b: "base_result_type f (map removeNullable ts) = Some b"
    and t: "t = (if list_ex isNullable ts then makeNullable b else b)"
    by (auto simp: function_result_type_def split: option.splits)
  have "\<not> isNullable b"
    using base_result_type_not_nullable [OF b] by simp
  with t show ?thesis by simp
qed

subsection \<open>What a successful operation of the builder returned\<close>

text \<open>
  A successful \<open>toFunctionNode\<close> returned an application with the engine's result
  type, and a successful first part of \<open>parse\<close> returned the applications that the
  source builds, over the nodes of the arguments.
\<close>

lemma bind_b_Inr:
  assumes "bind_b m f dag = (Inr y, dag')"
  obtains x dag1 where "m dag = (Inr x, dag1)" "f x dag1 = (Inr y, dag')"
  using assms by (auto simp: bind_b_def split: prod.splits sum.splits)

lemma toFunctionNode_Inr:
  "toFunctionNode f args dag = (Inr n, dag') \<Longrightarrow> application f args n \<and> dag' = insert_node n dag"
  by (auto simp: toFunctionNode_def application_def addNode_def throw_b_def split: option.splits)

lemma addColumn_Inr:
  "addColumnToActionsDAG t v dag = (Inr n, dag') \<Longrightarrow> n = COLUMN t v \<and> dag' = insert_node n dag"
  by (auto simp: addColumnToActionsDAG_def addNode_def)

lemma parseExpression_fst: "fst (parseExpression e dag) = Inr (expr_node e)"
  by (cases e) (auto simp: addColumnToActionsDAG_def addNode_def return_b_def)

lemma parseExpressions_fst: "fst (parseExpressions es dag) = Inr (map expr_node es)"
proof (induction es arbitrary: dag)
  case Nil
  then show ?case by (simp add: return_b_def)
next
  case (Cons e es)
  obtain d1 where d1: "parseExpression e dag = (Inr (expr_node e), d1)"
    using parseExpression_fst [of e dag] by (cases "parseExpression e dag") auto
  obtain d2 where d2: "parseExpressions es d1 = (Inr (map expr_node es), d2)"
    using Cons.IH [of d1] by (cases "parseExpressions es d1") auto
  show ?case by (simp add: bind_b_def d1 d2 return_b_def)
qed

lemma parseFunctionArguments_eq:
  "parseFunctionArguments c dag =
     (Inr (map expr_node (arguments c)), snd (parseFunctionArguments c dag))"
  using parseExpressions_fst [of "arguments c" dag]
  by (cases "parseExpressions (arguments c) dag") (auto simp: parseFunctionArguments_def)

lemma default_step_Inr:
  assumes "default_step s e one dag = (Inr step, dag')" "one = COLUMN DataTypeInt32 (Int64 1)"
  shows "default_step_built s e step"
proof -
  from assms obtain le where le: "application ''lessOrEquals'' [s, e] le"
    and st: "application ''if''
      [le, COLUMN DataTypeInt32 (Int64 1), COLUMN DataTypeInt32 (Int64 (- 1))] step"
    unfolding default_step_def
    by (auto elim!: bind_b_Inr dest!: toFunctionNode_Inr addColumn_Inr simp: return_b_def)
  from st have "hd (children step) = le"
    by (metis application_def children.simps(1) list.sel(1))
  with le st show ?thesis by (simp add: default_step_built_def)
qed

lemma parseFunctionArguments_Inr:
  "parseFunctionArguments c dag = (Inr ns, dag') \<Longrightarrow> ns = map expr_node (arguments c)"
  using parseFunctionArguments_eq [of c dag] by simp

lemma nth_map_0: "\<not> length xs < 2 \<Longrightarrow> map f xs ! 0 = f (xs ! 0)"
  by (cases xs) auto

lemma build_ranges_Inr:
  assumes "build_ranges c dag = (Inr v, dag')"
  shows "ranges_built v \<and>
     start_arg v = expr_node (arguments c ! 0) \<and>
     end_arg v = expr_node (arguments c ! 1) \<and>
     (length (arguments c) = 2 \<or> length (arguments c) = 3) \<and>
     (length (arguments c) = 3 \<longrightarrow> step_arg v = expr_node (arguments c ! 2)) \<and>
     (length (arguments c) = 2 \<longrightarrow> default_step_built (start_arg v) (end_arg v) (step_arg v))"
  using assms unfolding build_ranges_def Let_def
  apply (elim bind_b_Inr)
  apply (drule parseFunctionArguments_Inr)
  apply (simp split: if_splits add: throw_b_def)
  apply (elim bind_b_Inr)
  apply (auto simp: return_b_def ranges_built_def nth_map_0 split: if_splits
       dest!: toFunctionNode_Inr addColumn_Inr default_step_Inr)
  done

lemma parseExpressions_translated:
  "list_all is_translated es \<Longrightarrow> snd (parseExpressions es dag) = dag"
proof (induction es arbitrary: dag)
  case Nil
  then show ?case by (simp add: return_b_def)
next
  case (Cons e es)
  then obtain n where e: "e = Translated n" by (cases e) auto
  obtain d2 where d2: "parseExpressions es dag = (Inr (map expr_node es), d2)"
    using parseExpressions_fst [of es dag] by (cases "parseExpressions es dag") auto
  from Cons.prems have "list_all is_translated es" by simp
  from Cons.IH [OF this, of dag] have "d2 = dag" using d2 by simp
  then show ?case by (simp add: e bind_b_def return_b_def d2)
qed

subsection \<open>Result types of the applications that the handler builds\<close>

lemma integer_type_removeNullable [simp]: "integer_type (removeNullable t) = integer_type t"
  by (simp add: integer_type_def)

lemma integer_type_makeNullable [simp]: "integer_type (makeNullable t) = integer_type t"
  by (simp add: integer_type_def)

lemma integer_array_type_makeNullable [simp]:
  "integer_array_type (makeNullable t) = integer_array_type t"
  by (simp add: integer_array_type_def)

lemma boolean_type_makeNullable [simp]: "boolean_type (makeNullable t) = boolean_type t"
  by (simp add: boolean_type_def)

lemma integer_type_Int32 [simp]: "integer_type DataTypeInt32"
  by (simp add: integer_type_def)

lemma boolean_type_UInt8 [simp]: "boolean_type DataTypeUInt8"
  by (simp add: boolean_type_def)

lemma frt_isNull [simp]: "function_result_type ''isNull'' [a] = Some DataTypeUInt8"
  by (simp add: function_result_type_def)

lemma frt_assumeNotNull [simp]:
  "function_result_type ''assumeNotNull'' [a] = Some (removeNullable a)"
  by (simp add: function_result_type_def)

lemma frt_arith:
  assumes "f = ''plus'' \<or> f = ''minus'' \<or> f = ''modulo''"
  shows "function_result_type f [a, b] =
     (if integer_type a \<and> integer_type b
      then Some (if isNullable a \<or> isNullable b
                 then makeNullable (promote (removeNullable a) (removeNullable b))
                 else promote (removeNullable a) (removeNullable b))
      else None)"
  using assms by (auto simp: function_result_type_def base_result_type_def integer_type_def)

lemma frt_compare:
  assumes "f = ''lessOrEquals'' \<or> f = ''equals''"
  shows "function_result_type f [a, b] =
     (if integer_type a \<and> integer_type b
      then Some (if isNullable a \<or> isNullable b
                 then makeNullable DataTypeUInt8 else DataTypeUInt8)
      else None)"
  using assms by (auto simp: function_result_type_def base_result_type_def integer_type_def)

lemma frt_if:
  "function_result_type ''if'' [c, a, b] =
     (if boolean_type c
      then (case least_supertype (removeNullable a) (removeNullable b) of
              None \<Rightarrow> None
            | Some t \<Rightarrow> Some (if isNullable c \<or> isNullable a \<or> isNullable b
                              then makeNullable t else t))
      else None)"
  by (auto simp: function_result_type_def base_result_type_def boolean_type_def
      split: option.splits)

lemma frt_range:
  "function_result_type ''range'' [a, b, c] =
     (if integer_type a \<and> integer_type b \<and> integer_type c
      then Some (if isNullable a \<or> isNullable b \<or> isNullable c
                 then makeNullable (DataTypeArray
                        (promote (promote (removeNullable a) (removeNullable b)) (removeNullable c)))
                 else DataTypeArray
                        (promote (promote (removeNullable a) (removeNullable b)) (removeNullable c)))
      else None)"
  by (auto simp: function_result_type_def base_result_type_def integer_type_def)

lemma integer_type_promote:
  "integer_type a \<Longrightarrow> integer_type b \<Longrightarrow>
   integer_type (promote (removeNullable a) (removeNullable b))"
  unfolding integer_type_def
  by (metis is_integer_promote is_integer_not_nullable removeNullable_id)

lemma arith_typed:
  assumes "f = ''plus'' \<or> f = ''minus'' \<or> f = ''modulo''"
    and "function_result_type f [a, b] = Some t"
  shows "integer_type a \<and> integer_type b \<and> integer_type t"
  using assms(2) unfolding frt_arith [OF assms(1)]
  by (auto split: if_splits simp: integer_type_promote)

lemma arith_typable:
  assumes "f = ''plus'' \<or> f = ''minus'' \<or> f = ''modulo''"
    and "integer_type a" "integer_type b"
  shows "\<exists>t. function_result_type f [a, b] = Some t"
  unfolding frt_arith [OF assms(1)] using assms by simp

lemma compare_typed:
  assumes "f = ''lessOrEquals'' \<or> f = ''equals''"
    and "function_result_type f [a, b] = Some t"
  shows "integer_type a \<and> integer_type b \<and> boolean_type t"
  using assms(2) unfolding frt_compare [OF assms(1)]
  by (auto split: if_splits)

lemma compare_typable:
  assumes "f = ''lessOrEquals'' \<or> f = ''equals''"
    and "integer_type a" "integer_type b"
  shows "\<exists>t. function_result_type f [a, b] = Some t"
  unfolding frt_compare [OF assms(1)] using assms by simp

lemma range_typed:
  assumes "function_result_type ''range'' [a, b, c] = Some t"
  shows "integer_type a \<and> integer_type b \<and> integer_type c \<and> integer_array_type t"
  using assms unfolding frt_range
  by (auto split: if_splits simp: integer_array_type_def integer_type_def is_integer_promote)

lemma range_typable:
  assumes "integer_type a" "integer_type b" "integer_type c"
  shows "\<exists>t. function_result_type ''range'' [a, b, c] = Some t"
  unfolding frt_range using assms by simp

lemma least_supertype_integer:
  "is_integer a \<Longrightarrow> is_integer b \<Longrightarrow> \<exists>t. least_supertype a b = Some t \<and> is_integer t"
  by (cases a; cases b) (auto simp: promote_def)

lemma if_integer_typable:
  assumes "boolean_type c" "integer_type a" "integer_type b"
  shows "\<exists>t. function_result_type ''if'' [c, a, b] = Some t \<and> integer_type t"
proof -
  obtain u where u: "least_supertype (removeNullable a) (removeNullable b) = Some u" "is_integer u"
    using least_supertype_integer assms(2,3) unfolding integer_type_def by blast
  then have "integer_type u"
    by (simp add: integer_type_def is_integer_not_nullable removeNullable_id)
  then show ?thesis using assms(1) u by (simp add: frt_if)
qed

lemma least_supertype_array:
  assumes "integer_array_type a" "integer_array_type b"
  shows "\<exists>t. least_supertype (removeNullable a) (removeNullable b) = Some t \<and> integer_array_type t"
proof -
  from assms obtain x y where x: "removeNullable a = DataTypeArray x" "is_integer x"
    and y: "removeNullable b = DataTypeArray y" "is_integer y"
    by (auto simp: integer_array_type_def split: DataType.splits)
  obtain u where "least_supertype x y = Some u" "is_integer u"
    using least_supertype_integer x(2) y(2) by blast
  then show ?thesis using x y by (simp add: integer_array_type_def)
qed

lemma if_array_typable:
  assumes "boolean_type c" "integer_array_type a" "integer_array_type b"
  shows "\<exists>t. function_result_type ''if'' [c, a, b] = Some t \<and> integer_array_type t"
proof -
  obtain u where u: "least_supertype (removeNullable a) (removeNullable b) = Some u"
    "integer_array_type u"
    using least_supertype_array assms(2,3) by blast
  then show ?thesis using assms(1) by (simp add: frt_if)
qed

lemma frt_multiIf:
  assumes "boolean_type c1" "boolean_type c2" "boolean_type c3" "boolean_type c4"
  shows "function_result_type ''multiIf'' [c1, t, c2, t, c3, t, c4, t, t] =
           Some (if isNullable c1 \<or> isNullable t \<or> isNullable c2 \<or> isNullable c3 \<or> isNullable c4
                 then makeNullable (removeNullable t) else removeNullable t)"
  using assms by (auto simp: function_result_type_def base_result_type_def boolean_type_def)

lemma convertible_integer: "is_integer a \<Longrightarrow> is_integer b \<Longrightarrow> convertible a b"
  by (cases a; cases b) auto

lemma convertible_integer_array:
  "integer_array_type a \<Longrightarrow> integer_array_type b \<Longrightarrow> convertible a b"
proof (induction a b rule: convertible.induct)
qed (auto simp: integer_array_type_def convertible_integer split: DataType.splits)

subsection \<open>Calls with integer arguments are translated\<close>

lemma default_step_succeeds:
  assumes "integer_type (result_type s)" "integer_type (result_type e)"
  shows "\<exists>step d. default_step s e (COLUMN DataTypeInt32 (Int64 1)) dag = (Inr step, d) \<and>
           integer_type (result_type step)"
proof -
  obtain t where t: "function_result_type ''lessOrEquals'' [result_type s, result_type e] = Some t"
    using compare_typable assms by blast
  then have bt: "boolean_type t" using compare_typed by blast
  obtain u where u: "function_result_type ''if'' [t, DataTypeInt32, DataTypeInt32] = Some u"
    "integer_type u"
    using if_integer_typable [OF bt, of DataTypeInt32 DataTypeInt32] by auto
  show ?thesis
    by (simp add: default_step_def bind_b_def addColumnToActionsDAG_def addNode_def
        toFunctionNode_def t u return_b_def)
qed

lemma ranges_succeed:
  assumes "integer_type (result_type s)" "integer_type (result_type e)"
    "integer_type (result_type st)"
  shows "\<exists>sn en stn em ms eq tr ep r1 r2.
     function_result_type ''assumeNotNull'' [result_type s] = Some sn \<and>
     function_result_type ''assumeNotNull'' [result_type e] = Some en \<and>
     function_result_type ''assumeNotNull'' [result_type st] = Some stn \<and>
     function_result_type ''minus'' [result_type e, result_type s] = Some em \<and>
     function_result_type ''modulo'' [em, result_type st] = Some ms \<and>
     function_result_type ''equals'' [ms, DataTypeInt32] = Some eq \<and>
     function_result_type ''if'' [DataTypeUInt8, DataTypeInt32, stn] = Some tr \<and>
     function_result_type ''plus'' [en, stn] = Some ep \<and>
     function_result_type ''range'' [sn, ep, tr] = Some r1 \<and>
     function_result_type ''range'' [sn, en, tr] = Some r2"
proof -
  obtain em where em: "function_result_type ''minus'' [result_type e, result_type s] = Some em"
    using arith_typable assms by blast
  then have em_t: "integer_type em" using arith_typed by blast
  obtain ms where ms: "function_result_type ''modulo'' [em, result_type st] = Some ms"
    using arith_typable em_t assms by blast
  then have ms_t: "integer_type ms" using arith_typed by blast
  obtain eq where eq: "function_result_type ''equals'' [ms, DataTypeInt32] = Some eq"
    using compare_typable ms_t integer_type_Int32 by blast
  have sn: "integer_type (removeNullable (result_type s))"
    and en: "integer_type (removeNullable (result_type e))"
    and stn: "integer_type (removeNullable (result_type st))"
    using assms by simp_all
  obtain tr where tr: "function_result_type ''if''
      [DataTypeUInt8, DataTypeInt32, removeNullable (result_type st)] = Some tr" "integer_type tr"
    using if_integer_typable [OF boolean_type_UInt8 integer_type_Int32 stn] by auto
  obtain ep where ep: "function_result_type ''plus''
      [removeNullable (result_type e), removeNullable (result_type st)] = Some ep"
    using arith_typable en stn by blast
  then have ep_t: "integer_type ep" using arith_typed by blast
  obtain r1 where r1: "function_result_type ''range'' [removeNullable (result_type s), ep, tr] = Some r1"
    using range_typable sn ep_t tr(2) by blast
  obtain r2 where r2: "function_result_type ''range''
       [removeNullable (result_type s), removeNullable (result_type e), tr] = Some r2"
    using range_typable sn en tr(2) by blast
  show ?thesis using em ms eq tr ep r1 r2 by simp
qed

lemma build_ranges_succeeds:
  assumes len: "length (arguments c) = 2 \<or> length (arguments c) = 3"
    and typed: "list_all (\<lambda>a. integer_type (result_type (expr_node a))) (arguments c)"
  shows "\<exists>v d. build_ranges c dag = (Inr v, d)"
proof -
  define S where "S = expr_node (arguments c ! 0)"
  define E where "E = expr_node (arguments c ! 1)"
  define one where "one = COLUMN DataTypeInt32 (Int64 1)"
  obtain d0 where d0: "parseFunctionArguments c dag = (Inr (map expr_node (arguments c)), d0)"
    using parseFunctionArguments_eq by blast
  have s: "integer_type (result_type S)" and e: "integer_type (result_type E)"
    using len typed by (auto simp: list_all_length S_def E_def)
  have nth: "map expr_node (arguments c) ! 0 = S" "map expr_node (arguments c) ! 1 = E"
    using len by (auto simp: nth_map_0 S_def E_def)
  have lenb: "\<not> (length (arguments c) < 2 \<or> length (arguments c) > 3)"
    using len by auto
  have "\<exists>st d1. (if length (arguments c) = 3 then return_b (map expr_node (arguments c) ! 2)
             else default_step S E one) (insert_node one d0) = (Inr st, d1) \<and>
           integer_type (result_type st)"
  proof (cases "length (arguments c) = 3")
    case True
    then show ?thesis using typed by (auto simp: return_b_def list_all_length)
  next
    case False
    then show ?thesis using default_step_succeeds [OF s e] by (simp add: one_def)
  qed
  then obtain st d1 where st: "(if length (arguments c) = 3 then return_b (map expr_node (arguments c) ! 2)
             else default_step S E one) (insert_node one d0) = (Inr st, d1)"
     and st_t: "integer_type (result_type st)" by blast
  from ranges_succeed [OF s e st_t] obtain sn en stn em ms eq tr ep r1 r2 where ts:
     "function_result_type ''assumeNotNull'' [result_type S] = Some sn"
     "function_result_type ''assumeNotNull'' [result_type E] = Some en"
     "function_result_type ''assumeNotNull'' [result_type st] = Some stn"
     "function_result_type ''minus'' [result_type E, result_type S] = Some em"
     "function_result_type ''modulo'' [em, result_type st] = Some ms"
     "function_result_type ''equals'' [ms, DataTypeInt32] = Some eq"
     "function_result_type ''if'' [DataTypeUInt8, DataTypeInt32, stn] = Some tr"
     "function_result_type ''plus'' [en, stn] = Some ep"
     "function_result_type ''range'' [sn, ep, tr] = Some r1"
     "function_result_type ''range'' [sn, en, tr] = Some r2" by blast
  have one: "addColumnToActionsDAG DataTypeInt32 (Int64 1) d0 = (Inr one, insert_node one d0)"
    by (simp add: addColumnToActionsDAG_def addNode_def one_def)
  show ?thesis
    unfolding build_ranges_def
    apply (subst bind_b_def)
    apply (simp only: d0 prod.case sum.case length_map lenb if_False Let_def nth)
    apply (subst bind_b_def)
    apply (simp only: one prod.case sum.case)
    apply (subst bind_b_def)
    apply (simp only: st prod.case sum.case)
    apply (simp add: bind_b_def toFunctionNode_def addColumnToActionsDAG_def addNode_def
        return_b_def ts one_def del: frt_assumeNotNull)
    done
qed

subsection \<open>The selected node and its type\<close>

lemma convertNodeType_Inr:
  "convertNodeType n t dag = (Inr m, dag') \<Longrightarrow>
   m = FUNCTION ''CAST'' t [n] \<and> convertible (result_type n) t \<and> dag' = insert_node m dag"
  by (auto simp: convertNodeType_def addNode_def throw_b_def split: if_splits)

lemma select_range_Inr:
  assumes "select_range v dag = (Inr ret, dag')"
  shows "selected v ret"
  using assms unfolding select_range_def selected_def Let_def any_nullable_def
  by (auto split: if_splits elim!: bind_b_Inr
      dest!: toFunctionNode_Inr addColumn_Inr convertNodeType_Inr
      simp: null_const_def wrap_range_def)

lemma application_type:
  "application f args n \<Longrightarrow> function_result_type f (map result_type args) = Some (result_type n)"
  by (simp add: application_def)

lemma ranges_built_types:
  assumes "ranges_built v"
  shows "integer_type (result_type (start_arg v))"
    and "integer_type (result_type (end_arg v))"
    and "integer_type (result_type (step_arg v))"
    and "result_type (start_not_null_node v) = removeNullable (result_type (start_arg v))"
    and "result_type (end_not_null_node v) = removeNullable (result_type (end_arg v))"
    and "result_type (step_not_null_node v) = removeNullable (result_type (step_arg v))"
    and "result_type (start_is_null_node v) = DataTypeUInt8"
    and "result_type (end_is_null_node v) = DataTypeUInt8"
    and "result_type (step_is_null_node v) = DataTypeUInt8"
    and "boolean_type (result_type (modulo_step_eq_zero_node v))"
    and "integer_array_type (result_type (range_1_node v))"
    and "integer_array_type (result_type (range_2_node v))"
    and "\<not> isNullable (result_type (range_1_node v))"
    and "\<not> isNullable (result_type (range_2_node v))"
    and "isNullable (result_type (modulo_step_eq_zero_node v)) = any_nullable v"
proof -
  note b = assms [unfolded ranges_built_def]
  have em: "function_result_type ''minus'' [result_type (end_arg v), result_type (start_arg v)] =
      Some (result_type (end_minus_start_node v))"
    using b application_type by fastforce
  have ms: "function_result_type ''modulo''
      [result_type (end_minus_start_node v), result_type (step_arg v)] =
      Some (result_type (modulo_step_node v))"
    using b application_type by fastforce
  have eq: "function_result_type ''equals'' [result_type (modulo_step_node v), DataTypeInt32] =
      Some (result_type (modulo_step_eq_zero_node v))"
    using b application_type by fastforce
  show "integer_type (result_type (start_arg v))" "integer_type (result_type (end_arg v))"
    using arith_typed [OF _ em] by auto
  show "integer_type (result_type (step_arg v))"
    using arith_typed [OF _ ms] by auto
  show sn: "result_type (start_not_null_node v) = removeNullable (result_type (start_arg v))"
    and en: "result_type (end_not_null_node v) = removeNullable (result_type (end_arg v))"
    and stn: "result_type (step_not_null_node v) = removeNullable (result_type (step_arg v))"
    and isn: "result_type (start_is_null_node v) = DataTypeUInt8"
    and "result_type (end_is_null_node v) = DataTypeUInt8"
    and istn: "result_type (step_is_null_node v) = DataTypeUInt8"
    using b by (auto dest!: application_type)
  show "boolean_type (result_type (modulo_step_eq_zero_node v))"
    using compare_typed [OF _ eq] by auto
  have r1: "function_result_type ''range''
      [result_type (start_not_null_node v), result_type (end_plus_step_node v),
       result_type (tricky_step_node v)] = Some (result_type (range_1_node v))"
    using b application_type by fastforce
  have r2: "function_result_type ''range''
      [result_type (start_not_null_node v), result_type (end_not_null_node v),
       result_type (tricky_step_node v)] = Some (result_type (range_2_node v))"
    using b application_type by fastforce
  show "integer_array_type (result_type (range_1_node v))"
    "integer_array_type (result_type (range_2_node v))"
    using range_typed [OF r1] range_typed [OF r2] by auto
  have tr: "function_result_type ''if''
      [result_type (step_is_null_node v), DataTypeInt32, result_type (step_not_null_node v)] =
      Some (result_type (tricky_step_node v))"
    using b application_type by fastforce
  have ep: "function_result_type ''plus''
      [result_type (end_not_null_node v), result_type (step_not_null_node v)] =
      Some (result_type (end_plus_step_node v))"
    using b application_type by fastforce
  have trn: "\<not> isNullable (result_type (tricky_step_node v))"
    using function_result_type_nullable [OF tr] by (simp add: istn stn)
  have epn: "\<not> isNullable (result_type (end_plus_step_node v))"
    using function_result_type_nullable [OF ep] by (simp add: en stn)
  show "\<not> isNullable (result_type (range_1_node v))"
    using function_result_type_nullable [OF r1] by (simp add: sn trn epn)
  show "\<not> isNullable (result_type (range_2_node v))"
    using function_result_type_nullable [OF r2] by (simp add: sn en trn)
  have "isNullable (result_type (end_minus_start_node v)) =
      (isNullable (result_type (end_arg v)) \<or> isNullable (result_type (start_arg v)))"
    using function_result_type_nullable [OF em] by simp
  moreover have "isNullable (result_type (modulo_step_node v)) =
      (isNullable (result_type (end_minus_start_node v)) \<or> isNullable (result_type (step_arg v)))"
    using function_result_type_nullable [OF ms] by simp
  moreover have "isNullable (result_type (modulo_step_eq_zero_node v)) =
      isNullable (result_type (modulo_step_node v))"
    using function_result_type_nullable [OF eq] by simp
  ultimately show "isNullable (result_type (modulo_step_eq_zero_node v)) = any_nullable v"
    by (auto simp: any_nullable_def)
qed

lemma select_range_succeeds:
  assumes "ranges_built v"
  shows "\<exists>ret d. select_range v dag = (Inr ret, d)"
proof -
  note t = ranges_built_types [OF assms]
  let ?T = "makeNullable (result_type (range_1_node v))"
  show ?thesis
  proof (cases "any_nullable v")
    case False
    obtain u where "function_result_type ''if''
        [result_type (modulo_step_eq_zero_node v), result_type (range_1_node v),
         result_type (range_2_node v)] = Some u"
      using if_array_typable [OF t(10) t(11) t(12)] by blast
    then show ?thesis using False
      by (simp add: select_range_def any_nullable_def toFunctionNode_def addNode_def)
  next
    case True
    have c1: "convertible (result_type (range_1_node v)) ?T"
      and c2: "convertible (result_type (range_2_node v)) ?T"
      using t(11,12) by (simp_all add: convertible_integer_array)
    have m: "function_result_type ''multiIf''
        [DataTypeUInt8, ?T, DataTypeUInt8, ?T, DataTypeUInt8, ?T,
         result_type (modulo_step_eq_zero_node v), ?T, ?T] \<noteq> None"
      using frt_multiIf [OF boolean_type_UInt8 boolean_type_UInt8 boolean_type_UInt8 t(10), of ?T]
      by simp
    show ?thesis using True m
      by (auto simp add: select_range_def any_nullable_def Let_def bind_b_def convertNodeType_def
          c1 c2 addNode_def addColumnToActionsDAG_def toFunctionNode_def t(7,8,9))
  qed
qed

lemma selected_nullable:
  assumes "ranges_built v" "selected v ret"
  shows "isNullable (result_type ret) = any_nullable v"
proof (cases "any_nullable v")
  case True
  with assms(2) have "function_result_type ''multiIf'' (map result_type
             [start_is_null_node v, null_const v,
              end_is_null_node v, null_const v,
              step_is_null_node v, null_const v,
              modulo_step_eq_zero_node v, wrap_range v (range_1_node v),
              wrap_range v (range_2_node v)]) = Some (result_type ret)"
    by (simp add: selected_def application_def)
  from function_result_type_nullable [OF this] True show ?thesis
    by (simp add: null_const_def)
next
  case False
  with assms(2) have "function_result_type ''if'' (map result_type
             [modulo_step_eq_zero_node v, range_1_node v, range_2_node v]) = Some (result_type ret)"
    by (simp add: selected_def application_def)
  from function_result_type_nullable [OF this] False ranges_built_types(13,14,15) [OF assms(1)]
  show ?thesis by simp
qed

subsection \<open>Values of the nodes on a row\<close>

lemma eval_application:
  "application f args n \<Longrightarrow> eval_list row args = Inr vs \<Longrightarrow>
   eval row n = apply_function f (result_type n) vs"
  by (simp add: application_def) (metis eval.simps(3) sum.simps(6))

lemma default_field_integer: "is_integer t \<Longrightarrow> default_field t = Int64 0"
  by (cases t) auto

lemma apply_assumeNotNull:
  "integer_or_null x \<Longrightarrow> is_integer t \<Longrightarrow>
   apply_function ''assumeNotNull'' t [x] = Inr (Int64 (assumed_integer x))"
  by (cases x) (auto simp: apply_function_def default_field_integer)

lemma apply_isNull:
  "apply_function ''isNull'' t [x] = Inr (Int64 (if x = Null then 1 else 0))"
  by (simp add: apply_function_def)

lemma apply_minus:
  "integer_or_null a \<Longrightarrow> integer_or_null b \<Longrightarrow>
   apply_function ''minus'' t [a, b] =
     Inr (null_or [a, b] (Int64 (assumed_integer a - assumed_integer b)))"
  by (cases a; cases b) (auto simp: apply_function_def null_or_def)

lemma apply_plus:
  "apply_function ''plus'' t [Int64 a, Int64 b] = Inr (Int64 (a + b))"
  by (simp add: apply_function_def)

lemma apply_modulo:
  "integer_or_null a \<Longrightarrow> integer_or_null b \<Longrightarrow> a = Null \<or> b \<noteq> Int64 0 \<Longrightarrow>
   apply_function ''modulo'' t [a, b] =
     Inr (null_or [a, b] (Int64 (c_modulo (assumed_integer a) (assumed_integer b))))"
  by (cases a; cases b) (auto simp: apply_function_def null_or_def)

lemma apply_equals:
  "integer_or_null a \<Longrightarrow>
   apply_function ''equals'' t [a, Int64 b] =
     Inr (null_or [a] (Int64 (if assumed_integer a = b then 1 else 0)))"
  by (cases a) (auto simp: apply_function_def null_or_def)

lemma apply_lessOrEquals:
  "apply_function ''lessOrEquals'' t [Int64 a, Int64 b] = Inr (Int64 (if a \<le> b then 1 else 0))"
  by (simp add: apply_function_def)

lemma apply_if:
  "apply_function ''if'' t [Int64 c, a, b] = Inr (if c \<noteq> 0 then a else b)"
  "apply_function ''if'' t [Null, a, b] = Inr b"
  by (simp_all add: apply_function_def)

lemma apply_range:
  "s \<noteq> 0 \<Longrightarrow>
   apply_function ''range'' t [Int64 a, Int64 b, Int64 s] = Inr (Array (range_values a b s))"
  by (simp add: apply_function_def)

lemma eval_CAST: "eval row (FUNCTION ''CAST'' t [n]) = eval row n"
  by (cases "eval row n") (auto simp: apply_function_def)

lemma eval_ranges:
  assumes b: "ranges_built v"
    and s: "eval row (start_arg v) = Inr a" "integer_or_null a"
    and e: "eval row (end_arg v) = Inr b" "integer_or_null b"
    and st: "eval row (step_arg v) = Inr c" "integer_or_null c"
    and nz: "c \<noteq> Int64 0"
  shows "eval row (start_is_null_node v) = Inr (Int64 (if a = Null then 1 else 0))"
    and "eval row (end_is_null_node v) = Inr (Int64 (if b = Null then 1 else 0))"
    and "eval row (step_is_null_node v) = Inr (Int64 (if c = Null then 1 else 0))"
    and "eval row (modulo_step_eq_zero_node v) =
           Inr (null_or [a, b, c]
             (Int64 (if c_modulo (assumed_integer b - assumed_integer a) (assumed_integer c) = 0
                     then 1 else 0)))"
    and "eval row (tricky_step_node v) = Inr (Int64 (if c = Null then 1 else assumed_integer c))"
    and "eval row (range_1_node v) =
           Inr (Array (range_values (assumed_integer a) (assumed_integer b + assumed_integer c)
                  (if c = Null then 1 else assumed_integer c)))"
    and "eval row (range_2_node v) =
           Inr (Array (range_values (assumed_integer a) (assumed_integer b)
                  (if c = Null then 1 else assumed_integer c)))"
proof -
  note u = b [unfolded ranges_built_def]
  note t = ranges_built_types [OF b]
  have it: "is_integer (removeNullable (result_type (start_arg v)))"
    "is_integer (removeNullable (result_type (end_arg v)))"
    "is_integer (removeNullable (result_type (step_arg v)))"
    using t(1,2,3) by (simp_all add: integer_type_def)
  have sn: "eval row (start_not_null_node v) = Inr (Int64 (assumed_integer a))"
    using eval_application [of "''assumeNotNull''" "[start_arg v]" _ row "[a]"] u s it t(4)
    by (simp add: apply_assumeNotNull)
  have en: "eval row (end_not_null_node v) = Inr (Int64 (assumed_integer b))"
    using eval_application [of "''assumeNotNull''" "[end_arg v]" _ row "[b]"] u e it t(5)
    by (simp add: apply_assumeNotNull)
  have stn: "eval row (step_not_null_node v) = Inr (Int64 (assumed_integer c))"
    using eval_application [of "''assumeNotNull''" "[step_arg v]" _ row "[c]"] u st it t(6)
    by (simp add: apply_assumeNotNull)
  show isn: "eval row (start_is_null_node v) = Inr (Int64 (if a = Null then 1 else 0))"
    using eval_application [of "''isNull''" "[start_arg v]" _ row "[a]"] u s
    by (simp add: apply_isNull)
  show ien: "eval row (end_is_null_node v) = Inr (Int64 (if b = Null then 1 else 0))"
    using eval_application [of "''isNull''" "[end_arg v]" _ row "[b]"] u e
    by (simp add: apply_isNull)
  show istn: "eval row (step_is_null_node v) = Inr (Int64 (if c = Null then 1 else 0))"
    using eval_application [of "''isNull''" "[step_arg v]" _ row "[c]"] u st
    by (simp add: apply_isNull)
  have em: "eval row (end_minus_start_node v) =
      Inr (null_or [b, a] (Int64 (assumed_integer b - assumed_integer a)))"
    using eval_application [of "''minus''" "[end_arg v, start_arg v]" _ row "[b, a]"] u s e
    by (simp add: apply_minus)
  have ion: "integer_or_null (null_or [b, a] (Int64 (assumed_integer b - assumed_integer a)))"
    by (simp add: null_or_def)
  have ms: "eval row (modulo_step_node v) =
      Inr (null_or [a, b, c]
        (Int64 (c_modulo (assumed_integer b - assumed_integer a) (assumed_integer c))))"
    using eval_application [of "''modulo''" "[end_minus_start_node v, step_arg v]" _ row
        "[null_or [b, a] (Int64 (assumed_integer b - assumed_integer a)), c]"] u em st nz
      apply_modulo [OF ion st(2), of "result_type (modulo_step_node v)"]
    by (auto simp: null_or_def split: if_splits)
  have zero: "eval row (zero_const_node v) = Inr (Int64 0)"
    using u by simp
  have one: "eval row (one_const_node v) = Inr (Int64 1)"
    using u by simp
  show "eval row (modulo_step_eq_zero_node v) =
           Inr (null_or [a, b, c]
             (Int64 (if c_modulo (assumed_integer b - assumed_integer a) (assumed_integer c) = 0
                     then 1 else 0)))"
    using eval_application [of "''equals''" "[modulo_step_node v, zero_const_node v]" _ row
        "[null_or [a, b, c]
        (Int64 (c_modulo (assumed_integer b - assumed_integer a) (assumed_integer c))), Int64 0]"]
      u ms zero
    by (auto simp: null_or_def apply_equals split: if_splits)
  show tr: "eval row (tricky_step_node v) = Inr (Int64 (if c = Null then 1 else assumed_integer c))"
    using eval_application [of "''if''" "[step_is_null_node v, one_const_node v, step_not_null_node v]"
        _ row "[Int64 (if c = Null then 1 else 0), Int64 1, Int64 (assumed_integer c)]"]
      u istn one stn
    by (auto simp: apply_if)
  have trnz: "(if c = Null then 1 else assumed_integer c) \<noteq> 0"
    using nz st(2) by (cases c) auto
  have ep: "eval row (end_plus_step_node v) = Inr (Int64 (assumed_integer b + assumed_integer c))"
    using eval_application [of "''plus''" "[end_not_null_node v, step_not_null_node v]" _ row
        "[Int64 (assumed_integer b), Int64 (assumed_integer c)]"] u en stn
    by (simp add: apply_plus)
  show "eval row (range_1_node v) =
           Inr (Array (range_values (assumed_integer a) (assumed_integer b + assumed_integer c)
                  (if c = Null then 1 else assumed_integer c)))"
    using eval_application [of "''range''"
        "[start_not_null_node v, end_plus_step_node v, tricky_step_node v]" _ row
        "[Int64 (assumed_integer a), Int64 (assumed_integer b + assumed_integer c),
          Int64 (if c = Null then 1 else assumed_integer c)]"] u sn ep tr
      apply_range [OF trnz]
    by simp
  show "eval row (range_2_node v) =
           Inr (Array (range_values (assumed_integer a) (assumed_integer b)
                  (if c = Null then 1 else assumed_integer c)))"
    using eval_application [of "''range''"
        "[start_not_null_node v, end_not_null_node v, tricky_step_node v]" _ row
        "[Int64 (assumed_integer a), Int64 (assumed_integer b),
          Int64 (if c = Null then 1 else assumed_integer c)]"] u sn en tr
      apply_range [OF trnz]
    by simp
qed

lemma eval_selected_integers:
  assumes b: "ranges_built v" and sel: "selected v ret"
    and s: "eval row (start_arg v) = Inr (Int64 a)"
    and e: "eval row (end_arg v) = Inr (Int64 b)"
    and st: "eval row (step_arg v) = Inr (Int64 c)"
    and nz: "c \<noteq> 0"
  shows "eval row ret =
     Inr (Array (if c_modulo (b - a) c = 0 then range_values a (b + c) c
                 else range_values a b c))"
proof -
  note r = eval_ranges [OF b s _ e _ st, simplified, OF nz, simplified null_or_def, simplified]
  show ?thesis
  proof (cases "any_nullable v")
    case True
    with sel have app: "application ''multiIf''
             [start_is_null_node v, null_const v,
              end_is_null_node v, null_const v,
              step_is_null_node v, null_const v,
              modulo_step_eq_zero_node v, wrap_range v (range_1_node v),
              wrap_range v (range_2_node v)] ret"
      by (simp add: selected_def)
    have "eval_list row
             [start_is_null_node v, null_const v,
              end_is_null_node v, null_const v,
              step_is_null_node v, null_const v,
              modulo_step_eq_zero_node v, wrap_range v (range_1_node v),
              wrap_range v (range_2_node v)] =
            Inr [Int64 0, Null, Int64 0, Null, Int64 0, Null,
                 Int64 (if c_modulo (b - a) c = 0 then 1 else 0),
                 Array (range_values a (b + c) c), Array (range_values a b c)]"
      by (simp add: r null_const_def wrap_range_def eval_CAST del: eval.simps(3))
    from eval_application [OF app this] show ?thesis
      by (simp add: apply_function_def)
  next
    case False
    with sel have app: "application ''if''
             [modulo_step_eq_zero_node v, range_1_node v, range_2_node v] ret"
      by (simp add: selected_def)
    have "eval_list row [modulo_step_eq_zero_node v, range_1_node v, range_2_node v] =
            Inr [Int64 (if c_modulo (b - a) c = 0 then 1 else 0),
                 Array (range_values a (b + c) c), Array (range_values a b c)]"
      by (simp add: r)
    from eval_application [OF app this] show ?thesis
      by (simp add: apply_function_def)
  qed
qed

lemma eval_selected_null:
  assumes b: "ranges_built v" and sel: "selected v ret"
    and s: "eval row (start_arg v) = Inr a" "integer_or_null a"
    and e: "eval row (end_arg v) = Inr b" "integer_or_null b"
    and st: "eval row (step_arg v) = Inr c" "integer_or_null c"
    and nz: "c \<noteq> Int64 0"
    and null: "a = Null \<or> b = Null \<or> c = Null"
    and nullable: "any_nullable v"
  shows "eval row ret = Inr Null"
proof -
  note r = eval_ranges [OF b s e st nz]
  from sel nullable have app: "application ''multiIf''
             [start_is_null_node v, null_const v,
              end_is_null_node v, null_const v,
              step_is_null_node v, null_const v,
              modulo_step_eq_zero_node v, wrap_range v (range_1_node v),
              wrap_range v (range_2_node v)] ret"
      by (simp add: selected_def)
  show ?thesis using null
    by (subst eval_application [OF app])
       (auto simp add: r null_const_def wrap_range_def eval_CAST apply_function_def null_or_def
         simp del: eval.simps(3))
qed

subsection \<open>The returned node\<close>

lemma convertNodeTypeIfNeeded_Inr:
  assumes "convertNodeTypeIfNeeded c ret dag = (Inr n, dag')"
  shows "eval row n = eval row ret"
    and "output_type c = result_type ret \<Longrightarrow> n = ret"
  using assms
  by (auto simp: convertNodeTypeIfNeeded_def return_b_def eval_CAST simp del: eval.simps(3)
      split: if_splits dest!: convertNodeType_Inr)

lemma convertNodeTypeIfNeeded_succeeds:
  assumes "integer_array_type (output_type c)" "integer_array_type (result_type ret)"
  shows "\<exists>n d. convertNodeTypeIfNeeded c ret dag = (Inr n, d)"
  using convertible_integer_array [OF assms(2,1)]
  by (simp add: convertNodeTypeIfNeeded_def return_b_def convertNodeType_def addNode_def)

lemma parse_stages:
  assumes "build_ranges c dag = (Inr v, d1)" "select_range v d1 = (Inr ret, d2)"
  shows "parse c dag = convertNodeTypeIfNeeded c ret d2"
  using assms by (simp add: parse_def bind_b_def)

lemma selected_array_type:
  assumes "ranges_built v" "selected v ret"
  shows "integer_array_type (result_type ret)"
proof -
  note t = ranges_built_types [OF assms(1)]
  show ?thesis
  proof (cases "any_nullable v")
    case True
    let ?T = "makeNullable (result_type (range_1_node v))"
    from True assms(2) have "function_result_type ''multiIf''
        [DataTypeUInt8, ?T, DataTypeUInt8, ?T, DataTypeUInt8, ?T,
         result_type (modulo_step_eq_zero_node v), ?T, ?T] = Some (result_type ret)"
      by (simp add: selected_def application_def t(7,8,9) null_const_def wrap_range_def)
    then have "result_type ret = makeNullable (removeNullable ?T)"
      by (simp add: frt_multiIf [OF boolean_type_UInt8 boolean_type_UInt8 boolean_type_UInt8 t(10)])
    then show ?thesis
      using t(11) by (simp add: integer_array_type_def)
  next
    case False
    with assms(2) have f: "function_result_type ''if''
        [result_type (modulo_step_eq_zero_node v), result_type (range_1_node v),
         result_type (range_2_node v)] = Some (result_type ret)"
      by (simp add: selected_def application_def)
    obtain u where "function_result_type ''if''
        [result_type (modulo_step_eq_zero_node v), result_type (range_1_node v),
         result_type (range_2_node v)] = Some u" "integer_array_type u"
      using if_array_typable [OF t(10) t(11) t(12)] by blast
    with f show ?thesis by simp
  qed
qed

lemma parse_succeeds:
  assumes len: "length (arguments c) = 2 \<or> length (arguments c) = 3"
    and typed: "list_all (\<lambda>a. integer_type (result_type (expr_node a))) (arguments c)"
    and out: "integer_array_type (output_type c)"
  obtains v d1 ret d2 n d3 where "build_ranges c dag = (Inr v, d1)"
    "select_range v d1 = (Inr ret, d2)" "parse c dag = (Inr n, d3)"
    "\<And>row. eval row n = eval row ret"
proof -
  obtain v d1 where v: "build_ranges c dag = (Inr v, d1)"
    using build_ranges_succeeds [OF len typed] by blast
  then have b: "ranges_built v" using build_ranges_Inr by blast
  obtain ret d2 where ret: "select_range v d1 = (Inr ret, d2)"
    using select_range_succeeds [OF b] by blast
  then have sel: "selected v ret" by (rule select_range_Inr)
  obtain n d3 where n: "convertNodeTypeIfNeeded c ret d2 = (Inr n, d3)"
    using convertNodeTypeIfNeeded_succeeds [OF out selected_array_type [OF b sel]] by blast
  show thesis
    using that [OF v ret _ convertNodeTypeIfNeeded_Inr(1) [OF n]] parse_stages [OF v ret] n
    by simp
qed

subsection \<open>Ranges and the progression\<close>

lemma c_modulo_eq_0_iff: "c_modulo x st = 0 \<longleftrightarrow> st dvd x"
proof -
  have "c_modulo x st = 0 \<longleftrightarrow> x = 0 \<or> \<bar>x\<bar> mod \<bar>st\<bar> = 0"
    by (auto simp: c_modulo_def sgn_if)
  also have "\<dots> \<longleftrightarrow> \<bar>st\<bar> dvd \<bar>x\<bar>"
    by (auto simp: dvd_eq_mod_eq_0)
  finally show ?thesis by simp
qed

lemma count_inclusive:
  fixes t d :: int
  assumes "0 < t" "t dvd d"
  shows "(d + t + t - 1) div t = d div t + 1"
proof -
  from assms obtain q where q: "d = t * q" by (auto simp: dvd_def)
  have e: "d + t + t - 1 = (t - 1) + (q + 1) * t" by (simp add: q algebra_simps)
  have "(d + t + t - 1) div t = ((t - 1) + (q + 1) * t) div t"
    by (simp only: e)
  also have "\<dots> = (q + 1) + (t - 1) div t"
    using div_mult_self1 [of t "t - 1" "q + 1"] assms(1) by simp
  also have "(t - 1) div t = 0" using assms(1) by (simp add: div_pos_pos_trivial)
  finally have "(d + t + t - 1) div t = q + 1" by simp
  moreover have "d div t = q" using assms(1) by (simp add: q)
  ultimately show ?thesis by simp
qed

lemma count_exclusive:
  fixes t d :: int
  assumes "0 < t" "\<not> t dvd d"
  shows "(d + t - 1) div t = d div t + 1"
proof -
  define r where "r = d mod t"
  have "0 \<le> r" "r \<noteq> 0" "r < t"
    using assms by (simp_all add: r_def dvd_eq_mod_eq_0)
  then have r: "0 \<le> r - 1" "r - 1 < t" by simp_all
  have d: "d = r + (d div t) * t" by (simp add: r_def)
  have e: "d + t - 1 = (r - 1) + (d div t + 1) * t"
    using d by (simp add: algebra_simps)
  have "(d + t - 1) div t = ((r - 1) + (d div t + 1) * t) div t"
    by (simp only: e [symmetric])
  also have "\<dots> = (d div t + 1) + (r - 1) div t"
    using div_mult_self1 [of t "r - 1" "d div t + 1"] assms(1) by simp
  also have "(r - 1) div t = 0" using r by (simp add: div_pos_pos_trivial)
  finally show ?thesis by simp
qed

lemma ranges_progression_up:
  assumes "0 < st" "s \<le> e"
  shows "(if c_modulo (e - s) st = 0 then range_values s (e + st) st else range_values s e st) =
         progression s e st"
proof -
  have nn: "0 \<le> (e - s) div st" using assms by (simp add: pos_imp_zdiv_nonneg_iff)
  then have suc: "Suc (nat ((e - s) div st)) = nat ((e - s) div st + 1)"
    by (simp add: Suc_nat_eq_nat_zadd1)
  show ?thesis
  proof (cases "st dvd (e - s)")
    case True
    have "e + st - s + st - 1 = (e - s) + st + st - 1" by simp
    then have "(e + st - s + st - 1) div st = (e - s) div st + 1"
      using count_inclusive [OF assms(1) True] by simp
    then show ?thesis using True assms(1)
      by (simp add: c_modulo_eq_0_iff range_values_def progression_def suc)
  next
    case False
    have "(e - s + st - 1) div st = (e - s) div st + 1"
      using count_exclusive [OF assms(1) False] by simp
    then show ?thesis using False assms(1)
      by (simp add: c_modulo_eq_0_iff range_values_def progression_def suc)
  qed
qed

lemma ranges_progression_down:
  assumes "st < 0" "e \<le> s"
  shows "(if c_modulo (e - s) st = 0 then range_values s (e + st) st else range_values s e st) =
         progression s e st"
proof -
  define t where "t = - st"
  have t: "0 < t" "st = - t" using assms by (simp_all add: t_def)
  have "(e - s) div st = (- (s - e)) div (- t)" by (simp add: t(2))
  then have dv: "(e - s) div st = (s - e) div t" by (simp only: div_minus_minus)
  have nn: "0 \<le> (s - e) div t" using assms t by (simp add: pos_imp_zdiv_nonneg_iff)
  then have suc: "Suc (nat ((s - e) div t)) = nat ((s - e) div t + 1)"
    by (simp add: Suc_nat_eq_nat_zadd1)
  have "st dvd (e - s) \<longleftrightarrow> (- t) dvd (- (s - e))" by (simp add: t(2))
  then have dvd: "st dvd (e - s) \<longleftrightarrow> t dvd (s - e)" by (simp only: dvd_minus_iff minus_dvd_iff)
  have neg: "\<not> 0 < st" using assms by simp
  show ?thesis
  proof (cases "t dvd (s - e)")
    case True
    have "s - (e + st) + (- st) - 1 = (s - e) + t + t - 1" by (simp add: t(2))
    then have "(s - (e + st) + (- st) - 1) div (- st) = (s - e) div t + 1"
      using count_inclusive [OF t(1) True] by (simp add: t(2))
    then show ?thesis using True neg dvd
      by (simp add: c_modulo_eq_0_iff range_values_def progression_def suc dv)
  next
    case False
    have "(s - e + (- st) - 1) div (- st) = (s - e) div t + 1"
      using count_exclusive [OF t(1) False] by (simp add: t(2))
    then show ?thesis using False neg dvd
      by (simp add: c_modulo_eq_0_iff range_values_def progression_def suc dv)
  qed
qed

lemma end_in_progression:
  assumes "(0 < st \<and> s \<le> e) \<or> (st < 0 \<and> e \<le> s)"
  shows "e \<in> set (progression s e st) \<longleftrightarrow> c_modulo (e - s) st = 0"
proof
  assume "e \<in> set (progression s e st)"
  then have "e \<in> (\<lambda>k. s + int k * st) ` set [0 ..< Suc (nat ((e - s) div st))]"
    by (simp only: progression_def set_map)
  then obtain k where "e = s + int k * st" by blast
  then show "c_modulo (e - s) st = 0" by (simp add: c_modulo_eq_0_iff)
next
  assume "c_modulo (e - s) st = 0"
  then have d: "st dvd (e - s)" by (simp add: c_modulo_eq_0_iff)
  have nn: "0 \<le> (e - s) div st"
    using assms by (auto simp: pos_imp_zdiv_nonneg_iff neg_imp_zdiv_nonneg_iff)
  have "e = s + int (nat ((e - s) div st)) * st"
    using d nn by simp
  then have "e \<in> (\<lambda>k. s + int k * st) ` {0 ..< Suc (nat ((e - s) div st))}"
    by (intro image_eqI [where x = "nat ((e - s) div st)"]) simp_all
  then show "e \<in> set (progression s e st)"
    by (simp only: progression_def set_map set_upt)
qed

lemma progression_up_one:
  assumes "s \<le> e"
  shows "progression s e 1 = [s..e]"
proof (rule nth_equalityI)
  show len: "length (progression s e 1) = length [s..e]"
    using assms by (simp add: progression_def Suc_nat_eq_nat_zadd1)
  fix k assume "k < length (progression s e 1)"
  then have k: "k < Suc (nat (e - s))" by (simp add: progression_def)
  then have "s + int k \<le> e" using assms by linarith
  then have "[s..e] ! k = s + int k" by simp
  moreover have "progression s e 1 ! k = s + int k"
    using k unfolding progression_def by (simp only: div_by_1 nth_map_upt) simp
  ultimately show "progression s e 1 ! k = [s..e] ! k" by simp
qed

lemma progression_down_one:
  assumes "e \<le> s"
  shows "progression s e (- 1) = rev [e..s]"
proof (rule nth_equalityI)
  have d: "(e - s) div (- 1) = s - e" by simp
  show len: "length (progression s e (- 1)) = length (rev [e..s])"
    using assms by (simp add: progression_def Suc_nat_eq_nat_zadd1)
  fix k assume "k < length (progression s e (- 1))"
  then have k: "k < Suc (nat (s - e))" by (simp add: progression_def)
  have n: "length [e..s] = Suc (nat (s - e))" using assms by (simp add: Suc_nat_eq_nat_zadd1)
  have idx: "length [e..s] - Suc k = nat (s - e) - k" by (simp only: n diff_Suc_Suc)
  have "rev [e..s] ! k = [e..s] ! (length [e..s] - Suc k)"
    using k n by (simp only: rev_nth)
  also have "\<dots> = [e..s] ! (nat (s - e) - k)" by (simp only: idx)
  also have "\<dots> = e + int (nat (s - e) - k)"
    using k assms by (intro nth_upto) linarith
  also have "\<dots> = s - int k" using k assms by linarith
  finally have "rev [e..s] ! k = s - int k" .
  moreover have "progression s e (- 1) ! k = s - int k"
    using k unfolding progression_def d by (simp only: nth_map_upt) simp
  ultimately show "progression s e (- 1) ! k = rev [e..s] ! k" by simp
qed

subsection \<open>The value of a call\<close>

lemma eval_default_step:
  assumes "default_step_built S E step"
    and "eval row S = Inr (Int64 s)" "eval row E = Inr (Int64 e)"
  shows "eval row step = Inr (Int64 (if s \<le> e then 1 else - 1))"
proof -
  from assms(1) have le: "application ''lessOrEquals'' [S, E] (hd (children step))"
    and st: "application ''if''
      [hd (children step), COLUMN DataTypeInt32 (Int64 1), COLUMN DataTypeInt32 (Int64 (- 1))] step"
    by (simp_all add: default_step_built_def)
  have "eval_list row [S, E] = Inr [Int64 s, Int64 e]" using assms(2,3) by simp
  from eval_application [OF le this]
  have l: "eval row (hd (children step)) = Inr (Int64 (if s \<le> e then 1 else 0))"
    by (simp add: apply_lessOrEquals)
  have "eval_list row
      [hd (children step), COLUMN DataTypeInt32 (Int64 1), COLUMN DataTypeInt32 (Int64 (- 1))] =
      Inr [Int64 (if s \<le> e then 1 else 0), Int64 1, Int64 (- 1)]"
    by (simp add: l)
  from eval_application [OF st this] show ?thesis
    by (simp add: apply_if)
qed

lemma evaluate_eq:
  assumes "parse c dag = (Inr n, d)"
  shows "evaluate row c dag = eval row n"
  using assms by (simp add: evaluate_def)

lemma evaluate_integers:
  assumes len: "length (arguments c) = 2 \<or> length (arguments c) = 3"
    and typed: "list_all (\<lambda>a. integer_type (result_type (expr_node a))) (arguments c)"
    and out: "integer_array_type (output_type c)"
    and s: "eval row (expr_node (arguments c ! 0)) = Inr (Int64 s)"
    and e: "eval row (expr_node (arguments c ! 1)) = Inr (Int64 e)"
    and st: "if length (arguments c) = 3
             then eval row (expr_node (arguments c ! 2)) = Inr (Int64 st)
             else st = (if s \<le> e then 1 else - 1)"
    and nz: "st \<noteq> 0"
  shows "evaluate row c dag =
     Inr (Array (if c_modulo (e - s) st = 0 then range_values s (e + st) st
                 else range_values s e st))"
proof -
  obtain v d1 ret d2 n d3 where v: "build_ranges c dag = (Inr v, d1)"
    and ret: "select_range v d1 = (Inr ret, d2)"
    and n: "parse c dag = (Inr n, d3)"
    and ev: "\<And>row. eval row n = eval row ret"
    using parse_succeeds [OF len typed out] by blast
  note b = build_ranges_Inr [OF v]
  have sv: "eval row (start_arg v) = Inr (Int64 s)" and ee: "eval row (end_arg v) = Inr (Int64 e)"
    using b s e by simp_all
  have sst: "eval row (step_arg v) = Inr (Int64 st)"
  proof (cases "length (arguments c) = 3")
    case True
    then show ?thesis using b st by simp
  next
    case False
    then have "default_step_built (start_arg v) (end_arg v) (step_arg v)"
      using b by blast
    from eval_default_step [OF this sv ee] False st show ?thesis by simp
  qed
  have "eval row ret =
     Inr (Array (if c_modulo (e - s) st = 0 then range_values s (e + st) st
                 else range_values s e st))"
    using eval_selected_integers [OF _ select_range_Inr [OF ret] sv ee sst nz] b by blast
  then show ?thesis
    using evaluate_eq [OF n] ev by simp
qed

subsection \<open>Shapes and subtrees\<close>

lemma application_children: "application f args n \<Longrightarrow> children n = args"
  by (metis application_def children.simps(1))

lemma application_eq: "application f args n \<Longrightarrow> n = FUNCTION f (result_type n) args"
  by (simp add: application_def)

lemma ranges_builtD:
  assumes "ranges_built v"
  shows "one_const_node v = COLUMN DataTypeInt32 (Int64 1)"
    and "application ''assumeNotNull'' [start_arg v] (start_not_null_node v)"
    and "application ''assumeNotNull'' [end_arg v] (end_not_null_node v)"
    and "application ''assumeNotNull'' [step_arg v] (step_not_null_node v)"
    and "application ''isNull'' [start_arg v] (start_is_null_node v)"
    and "application ''isNull'' [end_arg v] (end_is_null_node v)"
    and "application ''isNull'' [step_arg v] (step_is_null_node v)"
    and "application ''minus'' [end_arg v, start_arg v] (end_minus_start_node v)"
    and "application ''modulo'' [end_minus_start_node v, step_arg v] (modulo_step_node v)"
    and "zero_const_node v = COLUMN DataTypeInt32 (Int64 0)"
    and "application ''equals'' [modulo_step_node v, COLUMN DataTypeInt32 (Int64 0)]
           (modulo_step_eq_zero_node v)"
    and "application ''if''
           [step_is_null_node v, COLUMN DataTypeInt32 (Int64 1), step_not_null_node v]
           (tricky_step_node v)"
    and "application ''plus'' [end_not_null_node v, step_not_null_node v] (end_plus_step_node v)"
    and "application ''range'' [start_not_null_node v, end_plus_step_node v, tricky_step_node v]
           (range_1_node v)"
    and "application ''range'' [start_not_null_node v, end_not_null_node v, tricky_step_node v]
           (range_2_node v)"
  using assms unfolding ranges_built_def by auto

lemma built_nodes_eq: "build_ranges c dag = (Inr v, d) \<Longrightarrow> built_nodes c dag = Some v"
  by (simp add: built_nodes_def)

lemma application_name: "application f args n \<Longrightarrow> function_name n = f"
  by (metis application_def function_name.simps(1))

lemma eval_tricky:
  assumes b: "ranges_built v"
    and st: "eval row (step_arg v) = Inr c" "integer_or_null c"
  shows "eval row (tricky_step_node v) = Inr (Int64 (if c = Null then 1 else assumed_integer c))"
proof -
  note d = ranges_builtD [OF b]
  note t = ranges_built_types [OF b]
  have it: "is_integer (result_type (step_not_null_node v))"
    using t(3) by (simp add: t(6) integer_type_def)
  have l: "eval_list row [step_arg v] = Inr [c]" using st by simp
  have stn: "eval row (step_not_null_node v) = Inr (Int64 (assumed_integer c))"
    using eval_application [OF d(4) l] by (simp add: apply_assumeNotNull [OF st(2) it])
  have istn: "eval row (step_is_null_node v) = Inr (Int64 (if c = Null then 1 else 0))"
    using eval_application [OF d(7) l] by (simp add: apply_isNull)
  have "eval_list row [step_is_null_node v, COLUMN DataTypeInt32 (Int64 1), step_not_null_node v] =
      Inr [Int64 (if c = Null then 1 else 0), Int64 1, Int64 (assumed_integer c)]"
    by (simp add: stn istn)
  from eval_application [OF d(12) this] show ?thesis
    by (simp add: apply_if)
qed

lemma parse_Inr_stages:
  assumes "build_ranges c dag = (Inr v, d1)" "select_range v d1 = (Inr ret, d2)"
    "parse c dag = (Inr n, d3)"
  shows "eval row n = eval row ret"
    and "n = ret \<or> n = FUNCTION ''CAST'' (output_type c) [ret]"
proof -
  have n: "convertNodeTypeIfNeeded c ret d2 = (Inr n, d3)"
    using parse_stages [OF assms(1,2)] assms(3) by simp
  show "eval row n = eval row ret" using convertNodeTypeIfNeeded_Inr(1) [OF n] .
  show "n = ret \<or> n = FUNCTION ''CAST'' (output_type c) [ret]"
    using n by (auto simp: convertNodeTypeIfNeeded_def return_b_def split: if_splits
        dest!: convertNodeType_Inr)
qed

lemma parse_succeeds_ex:
  assumes "length (arguments c) = 2 \<or> length (arguments c) = 3"
    and "list_all (\<lambda>a. integer_type (result_type (expr_node a))) (arguments c)"
    and "integer_array_type (output_type c)"
  shows "\<exists>v d1 ret d2 n d3. build_ranges c dag = (Inr v, d1) \<and>
     select_range v d1 = (Inr ret, d2) \<and> parse c dag = (Inr n, d3)"
proof (rule parse_succeeds [OF assms, of dag])
  fix v d1 ret d2 n d3
  assume "build_ranges c dag = (Inr v, d1)" "select_range v d1 = (Inr ret, d2)"
    "parse c dag = (Inr n, d3)"
  then show ?thesis by blast
qed

lemma selected_node_eq:
  "build_ranges c dag = (Inr v, d1) \<Longrightarrow> select_range v d1 = (Inr ret, d2) \<Longrightarrow>
   selected_node c dag = Some ret"
  by (simp add: selected_node_def)

lemma subnodes_self: "n \<in> set (subnodes n)"
  by (cases n) auto

lemma subnodes_application:
  assumes "application f args n"
  shows "set (subnodes n) = insert n (\<Union>a\<in>set args. set (subnodes a))"
proof -
  have "n = FUNCTION f (result_type n) args" using assms by (rule application_eq)
  then have "subnodes n = n # concat (map subnodes args)"
    by (metis subnodes.simps(1))
  then show ?thesis by simp
qed

lemma is_null_guard_application:
  assumes "application f args n"
  shows "is_null_guard n = (f = ''isNull'' \<or> f = ''multiIf'')"
proof -
  have "n = FUNCTION f (result_type n) args" using assms by (rule application_eq)
  then show ?thesis by (metis is_null_guard.simps(1))
qed

lemma subnodes_application_all:
  assumes "application f args n" and "P n"
    and "\<And>a m. a \<in> set args \<Longrightarrow> m \<in> set (subnodes a) \<Longrightarrow> P m"
  shows "\<forall>m\<in>set (subnodes n). P m"
  using assms by (auto simp: subnodes_application)

lemma step_is_null_reachable:
  assumes b: "ranges_built v"
    and app: "application ''if'' [modulo_step_eq_zero_node v, range_1_node v, range_2_node v] ret"
  shows "step_is_null_node v \<in> set (subnodes ret)"
proof -
  note d = ranges_builtD [OF b]
  have "step_is_null_node v \<in> set (subnodes (tricky_step_node v))"
    by (simp add: subnodes_application [OF d(12)] subnodes_self)
  then have "step_is_null_node v \<in> set (subnodes (range_2_node v))"
    by (simp add: subnodes_application [OF d(15)])
  then show ?thesis
    by (simp add: subnodes_application [OF app])
qed

section \<open>Claims\<close>

text \<open>
  C1, as amended. For a call with two or three arguments of integer type whose values on
  a row are not null, and whose step (the given one, or the default \<open>1\<close> or \<open>-1\<close>) is not
  zero and points from \<open>start\<close> towards \<open>end\<close>, the returned node evaluates to the
  progression from \<open>start\<close> in steps of \<open>step\<close> that does not pass \<open>end\<close>; it includes
  \<open>end\<close> exactly when the remainder of \<open>end - start\<close> by \<open>step\<close> is zero.
\<close>

theorem sequence_progression:
  assumes len: "length (arguments c) = 2 \<or> length (arguments c) = 3"
    and typed: "list_all (\<lambda>a. integer_type (result_type (expr_node a))) (arguments c)"
    and out: "integer_array_type (output_type c)"
    and s: "eval row (expr_node (arguments c ! 0)) = Inr (Int64 s)"
    and e: "eval row (expr_node (arguments c ! 1)) = Inr (Int64 e)"
    and st: "if length (arguments c) = 3
             then eval row (expr_node (arguments c ! 2)) = Inr (Int64 st)
             else st = (if s \<le> e then 1 else - 1)"
    and dir: "(0 < st \<and> s \<le> e) \<or> (st < 0 \<and> e \<le> s)"
  shows "evaluate row c dag = Inr (Array (progression s e st)) \<and>
         (e \<in> set (progression s e st) \<longleftrightarrow> c_modulo (e - s) st = 0)"
proof -
  have nz: "st \<noteq> 0" using dir by auto
  have "(if c_modulo (e - s) st = 0 then range_values s (e + st) st
                 else range_values s e st) = progression s e st"
    using dir ranges_progression_up ranges_progression_down by blast
  then have "evaluate row c dag = Inr (Array (progression s e st))"
    using evaluate_integers [OF len typed out s e st nz, of dag] by simp
  then show ?thesis using end_in_progression [OF dir] by simp
qed

theorem sequence_progression_witness:
  "evaluate empty_row
     \<lparr>arguments = [Literal DataTypeInt32 (Int64 1), Literal DataTypeInt32 (Int64 10),
                   Literal DataTypeInt32 (Int64 3)],
      output_type = DataTypeArray DataTypeInt32\<rparr> [] = Inr (Array [1, 4, 7, 10]) \<and>
   evaluate empty_row
     \<lparr>arguments = [Literal DataTypeInt32 (Int64 1), Literal DataTypeInt32 (Int64 9),
                   Literal DataTypeInt32 (Int64 3)],
      output_type = DataTypeArray DataTypeInt32\<rparr> [] = Inr (Array [1, 4, 7])"
  using sequence_progression [of
     "\<lparr>arguments = [Literal DataTypeInt32 (Int64 1), Literal DataTypeInt32 (Int64 10),
                   Literal DataTypeInt32 (Int64 3)],
      output_type = DataTypeArray DataTypeInt32\<rparr>" empty_row 1 10 3 "[]"]
    sequence_progression [of
     "\<lparr>arguments = [Literal DataTypeInt32 (Int64 1), Literal DataTypeInt32 (Int64 9),
                   Literal DataTypeInt32 (Int64 3)],
      output_type = DataTypeArray DataTypeInt32\<rparr>" empty_row 1 9 3 "[]"]
  by (simp add: integer_type_def integer_array_type_def progression_def upt_rec)

text \<open>
  C1 as stated fails where the step points away from \<open>end\<close>: \<open>sequence(10, 1, 3)\<close> has
  the remainder zero and evaluates to the empty array, which does not include \<open>end\<close>.
\<close>

theorem sequence_direction_counterexample:
  "evaluate empty_row
     \<lparr>arguments = [Literal DataTypeInt32 (Int64 10), Literal DataTypeInt32 (Int64 1),
                   Literal DataTypeInt32 (Int64 3)],
      output_type = DataTypeArray DataTypeInt32\<rparr> [] = Inr (Array []) \<and>
   c_modulo (1 - 10) 3 = 0 \<and> 1 \<notin> set ([] :: int list)"
  using evaluate_integers [of
     "\<lparr>arguments = [Literal DataTypeInt32 (Int64 10), Literal DataTypeInt32 (Int64 1),
                   Literal DataTypeInt32 (Int64 3)],
      output_type = DataTypeArray DataTypeInt32\<rparr>" empty_row 10 1 3 "[]"]
  by (simp add: integer_type_def integer_array_type_def c_modulo_def range_values_def)

text \<open>
  The nullable branch of \<open>parse\<close>. When the declared type of \<open>start\<close>, of \<open>end\<close> or of
  the step after defaulting is nullable, the node selected by \<open>parse\<close> is the multi-way
  conditional over, in this order, \<open>isNull(start)\<close> and null, \<open>isNull(end)\<close> and null,
  \<open>isNull(step)\<close> and null, the test of the remainder and the widened inclusive range,
  and the widened exclusive range; the returned node is this node or its conversion to
  the caller's type. On a row where \<open>start\<close>, \<open>end\<close> or the step is null, and the step is
  null or not zero, the returned node evaluates to null; on a row without nulls and with
  a step that is not zero it evaluates to the inclusive range if the remainder is zero
  and to the exclusive range otherwise.
\<close>

lemma nullable_branch_selection:
  assumes "build_ranges c dag = (Inr v, d1)" and "select_range v d1 = (Inr ret, d2)"
    and "parse c dag = (Inr n, d3)"
    and "isNullable (result_type (start_arg v)) \<or> isNullable (result_type (end_arg v)) \<or>
         isNullable (result_type (step_arg v))"
  shows "ret = FUNCTION ''multiIf'' (result_type ret)
           [FUNCTION ''isNull'' DataTypeUInt8 [start_arg v], null_const v,
            FUNCTION ''isNull'' DataTypeUInt8 [end_arg v], null_const v,
            FUNCTION ''isNull'' DataTypeUInt8 [step_arg v], null_const v,
            modulo_step_eq_zero_node v, wrap_range v (range_1_node v),
            wrap_range v (range_2_node v)] \<and>
         (n = ret \<or> n = FUNCTION ''CAST'' (output_type c) [ret]) \<and>
         (eval row (start_arg v) = Inr a \<and> integer_or_null a \<and>
          eval row (end_arg v) = Inr b \<and> integer_or_null b \<and>
          eval row (step_arg v) = Inr x \<and> integer_or_null x \<and> x \<noteq> Int64 0 \<and>
          (a = Null \<or> b = Null \<or> x = Null) \<longrightarrow>
            eval row n = Inr Null) \<and>
         (eval row (start_arg v) = Inr (Int64 s) \<and> eval row (end_arg v) = Inr (Int64 e) \<and>
          eval row (step_arg v) = Inr (Int64 st) \<and> st \<noteq> 0 \<longrightarrow>
            eval row n =
              Inr (Array (if c_modulo (e - s) st = 0 then range_values s (e + st) st
                          else range_values s e st)))"
proof -
  have b: "ranges_built v" using build_ranges_Inr [OF assms(1)] by blast
  note d = ranges_builtD [OF b]
  note t = ranges_built_types [OF b]
  have sel: "selected v ret" using select_range_Inr [OF assms(2)] .
  have an: "any_nullable v" using assms(4) by (simp add: any_nullable_def)
  have isn: "start_is_null_node v = FUNCTION ''isNull'' DataTypeUInt8 [start_arg v]"
    by (subst t(7) [symmetric]) (rule application_eq [OF d(5)])
  have ien: "end_is_null_node v = FUNCTION ''isNull'' DataTypeUInt8 [end_arg v]"
    by (subst t(8) [symmetric]) (rule application_eq [OF d(6)])
  have istn: "step_is_null_node v = FUNCTION ''isNull'' DataTypeUInt8 [step_arg v]"
    by (subst t(9) [symmetric]) (rule application_eq [OF d(7)])
  have app: "application ''multiIf''
             [start_is_null_node v, null_const v,
              end_is_null_node v, null_const v,
              step_is_null_node v, null_const v,
              modulo_step_eq_zero_node v, wrap_range v (range_1_node v),
              wrap_range v (range_2_node v)] ret"
    using sel an by (simp add: selected_def)
  have 1: "ret = FUNCTION ''multiIf'' (result_type ret)
           [FUNCTION ''isNull'' DataTypeUInt8 [start_arg v], null_const v,
            FUNCTION ''isNull'' DataTypeUInt8 [end_arg v], null_const v,
            FUNCTION ''isNull'' DataTypeUInt8 [step_arg v], null_const v,
            modulo_step_eq_zero_node v, wrap_range v (range_1_node v),
            wrap_range v (range_2_node v)]"
    by (subst isn [symmetric], subst ien [symmetric], subst istn [symmetric])
       (rule application_eq [OF app])
  have 2: "n = ret \<or> n = FUNCTION ''CAST'' (output_type c) [ret]"
    by (rule parse_Inr_stages(2) [OF assms(1,2,3)])
  have ev: "eval row n = eval row ret"
    by (rule parse_Inr_stages(1) [OF assms(1,2,3)])
  have 3: "eval row (start_arg v) = Inr a \<and> integer_or_null a \<and>
          eval row (end_arg v) = Inr b \<and> integer_or_null b \<and>
          eval row (step_arg v) = Inr x \<and> integer_or_null x \<and> x \<noteq> Int64 0 \<and>
          (a = Null \<or> b = Null \<or> x = Null) \<longrightarrow>
            eval row n = Inr Null"
  proof (intro impI, elim conjE)
    assume h: "eval row (start_arg v) = Inr a" "integer_or_null a"
      "eval row (end_arg v) = Inr b" "integer_or_null b"
      "eval row (step_arg v) = Inr x" "integer_or_null x" "x \<noteq> Int64 0"
      "a = Null \<or> b = Null \<or> x = Null"
    show "eval row n = Inr Null"
      using eval_selected_null [OF b sel h an] ev by simp
  qed
  have 4: "eval row (start_arg v) = Inr (Int64 s) \<and> eval row (end_arg v) = Inr (Int64 e) \<and>
          eval row (step_arg v) = Inr (Int64 st) \<and> st \<noteq> 0 \<longrightarrow>
            eval row n =
              Inr (Array (if c_modulo (e - s) st = 0 then range_values s (e + st) st
                          else range_values s e st))"
  proof (intro impI, elim conjE)
    assume h: "eval row (start_arg v) = Inr (Int64 s)" "eval row (end_arg v) = Inr (Int64 e)"
      "eval row (step_arg v) = Inr (Int64 st)" "st \<noteq> 0"
    show "eval row n =
              Inr (Array (if c_modulo (e - s) st = 0 then range_values s (e + st) st
                          else range_values s e st))"
      using eval_selected_integers [OF b sel h] ev by simp
  qed
  show ?thesis
    by (intro conjI) (rule 1 2 3 4)+
qed

lemma nullable_branch_selection_example:
  "evaluate empty_row
     \<lparr>arguments = [Translated (INPUT ''start'' (DataTypeNullable DataTypeInt32)),
                   Literal DataTypeInt32 (Int64 5), Literal DataTypeInt32 (Int64 1)],
      output_type = DataTypeNullable (DataTypeArray DataTypeInt32)\<rparr>
     [INPUT ''start'' (DataTypeNullable DataTypeInt32)] = Inr Null"
proof -
  let ?c = "\<lparr>arguments = [Translated (INPUT ''start'' (DataTypeNullable DataTypeInt32)),
                   Literal DataTypeInt32 (Int64 5), Literal DataTypeInt32 (Int64 1)],
      output_type = DataTypeNullable (DataTypeArray DataTypeInt32)\<rparr>"
  let ?d = "[INPUT ''start'' (DataTypeNullable DataTypeInt32)]"
  have len: "length (arguments ?c) = 2 \<or> length (arguments ?c) = 3" by simp
  have typed: "list_all (\<lambda>a. integer_type (result_type (expr_node a))) (arguments ?c)"
    by (simp add: integer_type_def)
  have out: "integer_array_type (output_type ?c)" by (simp add: integer_array_type_def)
  obtain v d1 ret d2 n d3 where v: "build_ranges ?c ?d = (Inr v, d1)"
    and ret: "select_range v d1 = (Inr ret, d2)"
    and n: "parse ?c ?d = (Inr n, d3)"
    using parse_succeeds_ex [OF len typed out, of ?d] by (elim exE conjE)
  note b = build_ranges_Inr [OF v]
  have a: "start_arg v = INPUT ''start'' (DataTypeNullable DataTypeInt32)"
    "end_arg v = COLUMN DataTypeInt32 (Int64 5)"
    "step_arg v = COLUMN DataTypeInt32 (Int64 1)"
    using b by simp_all
  have nullable: "isNullable (result_type (start_arg v)) \<or> isNullable (result_type (end_arg v)) \<or>
         isNullable (result_type (step_arg v))"
    by (simp add: a)
  have "eval empty_row (start_arg v) = Inr Null \<and> integer_or_null Null \<and>
          eval empty_row (end_arg v) = Inr (Int64 5) \<and> integer_or_null (Int64 5) \<and>
          eval empty_row (step_arg v) = Inr (Int64 1) \<and> integer_or_null (Int64 1) \<and>
          Int64 1 \<noteq> Int64 0 \<and>
          (Null = Null \<or> Int64 5 = Null \<or> Int64 1 = Null) \<longrightarrow>
            eval empty_row n = Inr Null"
    by (rule nullable_branch_selection [OF v ret n nullable, of empty_row Null "Int64 5" "Int64 1" 0 0 0,
          THEN conjunct2, THEN conjunct2, THEN conjunct1])
  then have "eval empty_row n = Inr Null"
    by (simp add: a empty_row_def)
  then show ?thesis by (simp add: evaluate_eq [OF n])
qed

text \<open>
  C2. A row with a null \<open>start\<close> is to give null whatever the other arguments are, as
  the comment at the head of \<open>parse\<close> has it. On \<open>sequence(NULL, 5, 0)\<close> it does not: the
  step of the ranges guards against a null step only, both ranges are evaluated before
  the conditional is, and \<open>range\<close> throws on the step zero.
\<close>

theorem null_start_zero_step_throws:
  "evaluate empty_row
     \<lparr>arguments = [Literal (DataTypeNullable DataTypeInt32) Null, Literal DataTypeInt32 (Int64 5),
                   Literal DataTypeInt32 (Int64 0)],
      output_type = DataTypeNullable (DataTypeArray DataTypeInt32)\<rparr> [] =
   Inl (ARGUMENT_OUT_OF_BOUND ''range'')"
  by (simp add: evaluate_def parse_def build_ranges_def select_range_def parseFunctionArguments_def
      bind_b_def return_b_def throw_b_def addColumnToActionsDAG_def addNode_def toFunctionNode_def
      convertNodeType_def convertNodeTypeIfNeeded_def function_result_type_def base_result_type_def
      makeNullable_def promote_def apply_function_def Let_def)

text \<open>
  C3. The node that \<open>parse\<close> selects, before the coercion to the caller's type, has a
  nullable result type if and only if the declared type of \<open>start\<close>, of \<open>end\<close> or of the
  step after defaulting is nullable. The statement is about declared types only: no row
  occurs in it.
\<close>

theorem result_nullable_iff_argument_nullable:
  assumes "build_ranges c dag = (Inr v, d1)" and "select_range v d1 = (Inr ret, d2)"
  shows "start_arg v = expr_node (arguments c ! 0) \<and>
         end_arg v = expr_node (arguments c ! 1) \<and>
         (length (arguments c) = 3 \<longrightarrow> step_arg v = expr_node (arguments c ! 2)) \<and>
         (length (arguments c) = 2 \<longrightarrow> default_step_built (start_arg v) (end_arg v) (step_arg v)) \<and>
         parse c dag = convertNodeTypeIfNeeded c ret d2 \<and>
         isNullable (result_type ret) =
           (isNullable (result_type (start_arg v)) \<or>
            isNullable (result_type (end_arg v)) \<or>
            isNullable (result_type (step_arg v)))"
proof -
  note b = build_ranges_Inr [OF assms(1)]
  have "isNullable (result_type ret) = any_nullable v"
    using selected_nullable b select_range_Inr [OF assms(2)] by blast
  then have "isNullable (result_type ret) =
           (isNullable (result_type (start_arg v)) \<or>
            isNullable (result_type (end_arg v)) \<or>
            isNullable (result_type (step_arg v)))"
    by (simp add: any_nullable_def)
  with b parse_stages [OF assms] show ?thesis
    by blast
qed

theorem result_nullable_iff_argument_nullable_witness:
  "\<exists>v d1 ret d2.
     build_ranges \<lparr>arguments = [Translated (INPUT ''a'' (DataTypeNullable DataTypeInt32)),
                                 Literal DataTypeInt32 (Int64 10)],
                    output_type = DataTypeNullable (DataTypeArray DataTypeInt32)\<rparr>
       [INPUT ''a'' (DataTypeNullable DataTypeInt32)] = (Inr v, d1) \<and>
     select_range v d1 = (Inr ret, d2) \<and>
     start_arg v = INPUT ''a'' (DataTypeNullable DataTypeInt32) \<and>
     isNullable (result_type ret)"
proof -
  let ?c = "\<lparr>arguments = [Translated (INPUT ''a'' (DataTypeNullable DataTypeInt32)),
                                 Literal DataTypeInt32 (Int64 10)],
                    output_type = DataTypeNullable (DataTypeArray DataTypeInt32)\<rparr>"
  let ?d = "[INPUT ''a'' (DataTypeNullable DataTypeInt32)]"
  obtain v d1 where v: "build_ranges ?c ?d = (Inr v, d1)"
    using build_ranges_succeeds [of ?c ?d] by (auto simp: integer_type_def)
  obtain ret d2 where ret: "select_range v d1 = (Inr ret, d2)"
    using select_range_succeeds build_ranges_Inr [OF v] by blast
  from result_nullable_iff_argument_nullable [OF v ret] v ret show ?thesis
    by auto
qed

text \<open>
  C4. For a call with two arguments, the step is the node \<open>if(lessOrEquals(start, end),
  1, -1)\<close> over the constants \<open>1\<close> and \<open>-1\<close>, whatever the arguments are, and it is the
  divisor of the remainder node. On a row where the arguments are the integers \<open>s\<close> and
  \<open>e\<close>, the step evaluates to \<open>1\<close> if \<open>s \<le> e\<close> and to \<open>-1\<close> otherwise, and the call to the
  integers from \<open>s\<close> to \<open>e\<close>, ascending or descending.
\<close>

theorem default_step_is_data_flow:
  assumes len: "length (arguments c) = 2"
    and typed: "list_all (\<lambda>a. integer_type (result_type (expr_node a))) (arguments c)"
    and out: "integer_array_type (output_type c)"
  shows "\<exists>v d1.
     build_ranges c dag = (Inr v, d1) \<and>
     step_arg v =
       FUNCTION ''if'' (result_type (step_arg v))
         [FUNCTION ''lessOrEquals'' (result_type (hd (children (step_arg v))))
            [expr_node (arguments c ! 0), expr_node (arguments c ! 1)],
          COLUMN DataTypeInt32 (Int64 1),
          COLUMN DataTypeInt32 (Int64 (- 1))] \<and>
     modulo_step_node v =
       FUNCTION ''modulo'' (result_type (modulo_step_node v)) [end_minus_start_node v, step_arg v] \<and>
     (eval row (expr_node (arguments c ! 0)) = Inr (Int64 s) \<and>
      eval row (expr_node (arguments c ! 1)) = Inr (Int64 e) \<longrightarrow>
      eval row (step_arg v) = Inr (Int64 (if s \<le> e then 1 else - 1)) \<and>
      evaluate row c dag = Inr (Array (if s \<le> e then [s..e] else rev [e..s])))"
proof -
  have len': "length (arguments c) = 2 \<or> length (arguments c) = 3" using len by simp
  obtain v d1 where v: "build_ranges c dag = (Inr v, d1)"
    using build_ranges_succeeds [OF len' typed] by blast
  note b = build_ranges_Inr [OF v]
  have built: "ranges_built v" using b by blast
  have sa: "start_arg v = expr_node (arguments c ! 0)"
    and ea: "end_arg v = expr_node (arguments c ! 1)"
    using b by simp_all
  have ds: "default_step_built (start_arg v) (end_arg v) (step_arg v)"
    using b len by blast
  then have le: "application ''lessOrEquals'' [start_arg v, end_arg v] (hd (children (step_arg v)))"
    and st: "application ''if''
      [hd (children (step_arg v)), COLUMN DataTypeInt32 (Int64 1),
       COLUMN DataTypeInt32 (Int64 (- 1))] (step_arg v)"
    by (simp_all add: default_step_built_def)
  have shape: "step_arg v =
       FUNCTION ''if'' (result_type (step_arg v))
         [FUNCTION ''lessOrEquals'' (result_type (hd (children (step_arg v))))
            [expr_node (arguments c ! 0), expr_node (arguments c ! 1)],
          COLUMN DataTypeInt32 (Int64 1),
          COLUMN DataTypeInt32 (Int64 (- 1))]"
    by (subst application_eq [OF le, unfolded sa ea, symmetric]) (rule application_eq [OF st])
  have m: "modulo_step_node v =
       FUNCTION ''modulo'' (result_type (modulo_step_node v)) [end_minus_start_node v, step_arg v]"
    by (rule application_eq [OF ranges_builtD(9) [OF built]])
  have "eval row (step_arg v) = Inr (Int64 (if s \<le> e then 1 else - 1)) \<and>
      evaluate row c dag = Inr (Array (if s \<le> e then [s..e] else rev [e..s]))"
    if s: "eval row (expr_node (arguments c ! 0)) = Inr (Int64 s)"
      and e: "eval row (expr_node (arguments c ! 1)) = Inr (Int64 e)"
  proof -
    have sv: "eval row (start_arg v) = Inr (Int64 s)" and ee: "eval row (end_arg v) = Inr (Int64 e)"
      using sa ea s e by simp_all
    have ev: "eval row (step_arg v) = Inr (Int64 (if s \<le> e then 1 else - 1))"
      by (rule eval_default_step [OF ds sv ee])
    have st': "if length (arguments c) = 3
               then eval row (expr_node (arguments c ! 2)) = Inr (Int64 (if s \<le> e then 1 else - 1))
               else (if s \<le> e then 1 else - 1) = (if s \<le> e then 1 else - (1::int))"
      using len by simp
    have nz: "(if s \<le> e then 1 else - (1::int)) \<noteq> 0" by simp
    have dir: "(0 < (if s \<le> e then 1 else - (1::int)) \<and> s \<le> e) \<or>
               ((if s \<le> e then 1 else - (1::int)) < 0 \<and> e \<le> s)" by simp
    have "(if c_modulo (e - s) (if s \<le> e then 1 else - 1) = 0
           then range_values s (e + (if s \<le> e then 1 else - 1)) (if s \<le> e then 1 else - 1)
           else range_values s e (if s \<le> e then 1 else - 1)) =
          progression s e (if s \<le> e then 1 else - 1)"
      using dir ranges_progression_up ranges_progression_down by blast
    also have "\<dots> = (if s \<le> e then [s..e] else rev [e..s])"
      by (simp add: progression_up_one progression_down_one)
    finally have "evaluate row c dag = Inr (Array (if s \<le> e then [s..e] else rev [e..s]))"
      using evaluate_integers [OF len' typed out s e st' nz, of dag] by simp
    with ev show ?thesis by simp
  qed
  with v shape m show ?thesis by blast
qed

theorem default_step_is_data_flow_witness:
  "evaluate empty_row
     \<lparr>arguments = [Literal DataTypeInt32 (Int64 5), Literal DataTypeInt32 (Int64 1)],
      output_type = DataTypeArray DataTypeInt32\<rparr> [] = Inr (Array [5, 4, 3, 2, 1])"
  using default_step_is_data_flow [of
     "\<lparr>arguments = [Literal DataTypeInt32 (Int64 5), Literal DataTypeInt32 (Int64 1)],
      output_type = DataTypeArray DataTypeInt32\<rparr>" "[]" empty_row 5 1]
  by (auto simp: integer_type_def integer_array_type_def upto.simps [of 1])

text \<open>
  C5, as amended. A call with an argument count other than two or three fails with the
  exception \<open>NUMBER_OF_ARGUMENTS_DOESNT_MATCH\<close>, whose message names the function. The
  arguments are translated before they are counted, so on that failure the builder is as
  the translation of the arguments left it: the handler has added no node of its own, and
  the builder is unchanged when every argument was translated before the call.
\<close>

theorem arity_mismatch:
  assumes "length (arguments c) \<noteq> 2" and "length (arguments c) \<noteq> 3"
  shows "parse c dag =
           (Inl (NUMBER_OF_ARGUMENTS_DOESNT_MATCH
                   ''Function sequence requires two or three arguments''),
            snd (parseFunctionArguments c dag)) \<and>
         (list_all is_translated (arguments c) \<longrightarrow> snd (parse c dag) = dag)"
proof -
  have "build_ranges c dag =
          (Inl (NUMBER_OF_ARGUMENTS_DOESNT_MATCH
                  ''Function sequence requires two or three arguments''),
           snd (parseFunctionArguments c dag))"
    unfolding build_ranges_def
    using assms
    by (subst bind_b_def, subst parseFunctionArguments_eq) (auto simp: throw_b_def getName_def)
  then have p: "parse c dag =
           (Inl (NUMBER_OF_ARGUMENTS_DOESNT_MATCH
                   ''Function sequence requires two or three arguments''),
            snd (parseFunctionArguments c dag))"
    by (simp add: parse_def bind_b_def)
  moreover have "list_all is_translated (arguments c) \<longrightarrow> snd (parse c dag) = dag"
    by (simp add: p parseFunctionArguments_def parseExpressions_translated)
  ultimately show ?thesis by simp
qed

theorem arity_mismatch_witness:
  "parse \<lparr>arguments = [Translated (INPUT ''a'' DataTypeInt32)], output_type = DataTypeArray DataTypeInt32\<rparr>
     [INPUT ''a'' DataTypeInt32] =
     (Inl (NUMBER_OF_ARGUMENTS_DOESNT_MATCH ''Function sequence requires two or three arguments''),
      [INPUT ''a'' DataTypeInt32])"
  using arity_mismatch [of "\<lparr>arguments = [Translated (INPUT ''a'' DataTypeInt32)],
      output_type = DataTypeArray DataTypeInt32\<rparr>" "[INPUT ''a'' DataTypeInt32]"]
  by (simp add: parseFunctionArguments_def return_b_def bind_b_def)

text \<open>
  C5 as stated fails: the call \<open>sequence(1)\<close> on an empty builder fails on its argument
  count and leaves the constant of its literal argument in the builder.
\<close>

theorem arity_mismatch_counterexample:
  "fst (parse \<lparr>arguments = [Literal DataTypeInt32 (Int64 1)],
                output_type = DataTypeArray DataTypeInt32\<rparr> []) =
     Inl (NUMBER_OF_ARGUMENTS_DOESNT_MATCH ''Function sequence requires two or three arguments'') \<and>
   snd (parse \<lparr>arguments = [Literal DataTypeInt32 (Int64 1)],
                output_type = DataTypeArray DataTypeInt32\<rparr> []) \<noteq> []"
  by (simp add: parse_def build_ranges_def parseFunctionArguments_def bind_b_def return_b_def
      throw_b_def addColumnToActionsDAG_def addNode_def insert_node_def getName_def)

text \<open>
  C6, as amended. The inclusive range node is \<open>range(start', end' + step', stepForRange)\<close>
  and the exclusive one \<open>range(start', end', stepForRange)\<close>, where \<open>stepForRange =
  if(isNull(step), 1, step')\<close> and \<open>step'\<close> is \<open>assumeNotNull(step)\<close>. On a row where the step
  is an integer, \<open>stepForRange\<close> evaluates to it. On a row where the step is null (its
  declared type being nullable) and \<open>start\<close> and \<open>end\<close> are integers or null, \<open>stepForRange\<close>
  evaluates to the placeholder \<open>1\<close> and the returned node to null.
\<close>

theorem ranges_and_step_placeholder:
  assumes "build_ranges c dag = (Inr v, d1)" and "select_range v d1 = (Inr ret, d2)"
    and "parse c dag = (Inr n, d3)"
  shows "tricky_step_node v =
           FUNCTION ''if'' (result_type (tricky_step_node v))
             [step_is_null_node v, COLUMN DataTypeInt32 (Int64 1), step_not_null_node v] \<and>
         step_is_null_node v = FUNCTION ''isNull'' DataTypeUInt8 [step_arg v] \<and>
         step_not_null_node v =
           FUNCTION ''assumeNotNull'' (removeNullable (result_type (step_arg v))) [step_arg v] \<and>
         end_plus_step_node v =
           FUNCTION ''plus'' (result_type (end_plus_step_node v))
             [end_not_null_node v, step_not_null_node v] \<and>
         range_1_node v =
           FUNCTION ''range'' (result_type (range_1_node v))
             [start_not_null_node v, end_plus_step_node v, tricky_step_node v] \<and>
         range_2_node v =
           FUNCTION ''range'' (result_type (range_2_node v))
             [start_not_null_node v, end_not_null_node v, tricky_step_node v] \<and>
         (eval row (step_arg v) = Inr (Int64 st) \<longrightarrow>
            eval row (tricky_step_node v) = Inr (Int64 st)) \<and>
         (eval row (step_arg v) = Inr Null \<and> isNullable (result_type (step_arg v)) \<and>
          eval row (start_arg v) = Inr a \<and> integer_or_null a \<and>
          eval row (end_arg v) = Inr b \<and> integer_or_null b \<longrightarrow>
            eval row (tricky_step_node v) = Inr (Int64 1) \<and> eval row n = Inr Null)"
proof -
  have b: "ranges_built v" using build_ranges_Inr [OF assms(1)] by blast
  note d = ranges_builtD [OF b]
  note t = ranges_built_types [OF b]
  have sel: "selected v ret" using select_range_Inr [OF assms(2)] .
  have 1: "tricky_step_node v =
           FUNCTION ''if'' (result_type (tricky_step_node v))
             [step_is_null_node v, COLUMN DataTypeInt32 (Int64 1), step_not_null_node v]"
    by (rule application_eq [OF d(12)])
  have 2: "step_is_null_node v = FUNCTION ''isNull'' DataTypeUInt8 [step_arg v]"
    by (subst t(9) [symmetric]) (rule application_eq [OF d(7)])
  have 3: "step_not_null_node v =
           FUNCTION ''assumeNotNull'' (removeNullable (result_type (step_arg v))) [step_arg v]"
    by (subst t(6) [symmetric]) (rule application_eq [OF d(4)])
  have 4: "end_plus_step_node v =
           FUNCTION ''plus'' (result_type (end_plus_step_node v))
             [end_not_null_node v, step_not_null_node v]"
    by (rule application_eq [OF d(13)])
  have 5: "range_1_node v =
           FUNCTION ''range'' (result_type (range_1_node v))
             [start_not_null_node v, end_plus_step_node v, tricky_step_node v]"
    by (rule application_eq [OF d(14)])
  have 6: "range_2_node v =
           FUNCTION ''range'' (result_type (range_2_node v))
             [start_not_null_node v, end_not_null_node v, tricky_step_node v]"
    by (rule application_eq [OF d(15)])
  have 7: "eval row (step_arg v) = Inr (Int64 st) \<longrightarrow>
            eval row (tricky_step_node v) = Inr (Int64 st)"
    using eval_tricky [OF b, of row "Int64 st"] by simp
  have 8: "eval row (step_arg v) = Inr Null \<and> isNullable (result_type (step_arg v)) \<and>
          eval row (start_arg v) = Inr a \<and> integer_or_null a \<and>
          eval row (end_arg v) = Inr b \<and> integer_or_null b \<longrightarrow>
            eval row (tricky_step_node v) = Inr (Int64 1) \<and> eval row n = Inr Null"
  proof (intro impI, elim conjE)
    assume h: "eval row (step_arg v) = Inr Null" "isNullable (result_type (step_arg v))"
      "eval row (start_arg v) = Inr a" "integer_or_null a"
      "eval row (end_arg v) = Inr b" "integer_or_null b"
    have "eval row (tricky_step_node v) = Inr (Int64 1)"
      using eval_tricky [OF b h(1)] by simp
    moreover have "eval row ret = Inr Null"
      using eval_selected_null [OF b sel h(3,4,5,6,1)] h(2) by (simp add: any_nullable_def)
    ultimately show "eval row (tricky_step_node v) = Inr (Int64 1) \<and> eval row n = Inr Null"
      using parse_Inr_stages(1) [OF assms] by simp
  qed
  show ?thesis
    by (intro conjI) (rule 1 2 3 4 5 6 7 8)+
qed

theorem ranges_and_step_placeholder_witness:
  "evaluate empty_row
     \<lparr>arguments = [Literal DataTypeInt32 (Int64 1), Literal DataTypeInt32 (Int64 5),
                   Translated (INPUT ''step'' (DataTypeNullable DataTypeInt32))],
      output_type = DataTypeNullable (DataTypeArray DataTypeInt32)\<rparr>
     [INPUT ''step'' (DataTypeNullable DataTypeInt32)] = Inr Null"
proof -
  let ?c = "\<lparr>arguments = [Literal DataTypeInt32 (Int64 1), Literal DataTypeInt32 (Int64 5),
                   Translated (INPUT ''step'' (DataTypeNullable DataTypeInt32))],
      output_type = DataTypeNullable (DataTypeArray DataTypeInt32)\<rparr>"
  let ?d = "[INPUT ''step'' (DataTypeNullable DataTypeInt32)]"
  have len: "length (arguments ?c) = 2 \<or> length (arguments ?c) = 3" by simp
  have typed: "list_all (\<lambda>a. integer_type (result_type (expr_node a))) (arguments ?c)"
    by (simp add: integer_type_def)
  have out: "integer_array_type (output_type ?c)" by (simp add: integer_array_type_def)
  obtain v d1 ret d2 n d3 where v: "build_ranges ?c ?d = (Inr v, d1)"
    and ret: "select_range v d1 = (Inr ret, d2)"
    and n: "parse ?c ?d = (Inr n, d3)"
    using parse_succeeds_ex [OF len typed out, of ?d] by (elim exE conjE)
  note b = build_ranges_Inr [OF v]
  have a: "start_arg v = COLUMN DataTypeInt32 (Int64 1)" "end_arg v = COLUMN DataTypeInt32 (Int64 5)"
    "step_arg v = INPUT ''step'' (DataTypeNullable DataTypeInt32)"
    using b by simp_all
  have "eval empty_row (step_arg v) = Inr Null \<and> isNullable (result_type (step_arg v)) \<and>
          eval empty_row (start_arg v) = Inr (Int64 1) \<and> integer_or_null (Int64 1) \<and>
          eval empty_row (end_arg v) = Inr (Int64 5) \<and> integer_or_null (Int64 5) \<longrightarrow>
            eval empty_row (tricky_step_node v) = Inr (Int64 1) \<and> eval empty_row n = Inr Null"
    using ranges_and_step_placeholder [OF v ret n, of empty_row 0 "Int64 1" "Int64 5"]
    by (elim conjE)
  then have "eval empty_row n = Inr Null"
    by (simp add: a empty_row_def)
  then show ?thesis by (simp add: evaluate_eq [OF n])
qed

text \<open>
  C6 as stated fails: the bound of the inclusive range adds \<open>step'\<close> to \<open>end'\<close>, not
  \<open>stepForRange\<close>.
\<close>

theorem inclusive_bound_counterexample:
  "map_option inclusive_bound_from_range_step
     (built_nodes
        \<lparr>arguments = [Literal DataTypeInt32 (Int64 1), Literal DataTypeInt32 (Int64 10),
                      Literal DataTypeInt32 (Int64 3)],
         output_type = DataTypeArray DataTypeInt32\<rparr> []) = Some False"
proof -
  let ?c = "\<lparr>arguments = [Literal DataTypeInt32 (Int64 1), Literal DataTypeInt32 (Int64 10),
                   Literal DataTypeInt32 (Int64 3)],
      output_type = DataTypeArray DataTypeInt32\<rparr>"
  obtain v d1 where v: "build_ranges ?c [] = (Inr v, d1)"
    using build_ranges_succeeds [of ?c "[]"] by (auto simp: integer_type_def)
  have b: "ranges_built v" using build_ranges_Inr [OF v] by blast
  note d = ranges_builtD [OF b]
  have ch: "children (end_plus_step_node v) = [end_not_null_node v, step_not_null_node v]"
    by (rule application_children [OF d(13)])
  have "tricky_step_node v \<noteq> step_not_null_node v"
    using application_name [OF d(12)] application_name [OF d(4)] by auto
  then have "\<not> inclusive_bound_from_range_step v"
    using ch by (simp add: inclusive_bound_from_range_step_def)
  then show ?thesis by (simp add: built_nodes_eq [OF v])
qed

text \<open>
  C7, as amended. The remainder is \<open>modulo(minus(end, start), step)\<close> over the nodes of the
  arguments as they are given (the step after defaulting), and the condition that
  selects between the ranges is \<open>equals(remainder, 0)\<close>; the \<open>assumeNotNull\<close> projections
  of the three arguments exist beside it. On a row where the three are integers and the
  step is not zero, the condition evaluates to one exactly when the truncating remainder
  of \<open>end - start\<close> by the step is zero.
\<close>

theorem remainder_from_arguments:
  assumes "build_ranges c dag = (Inr v, d1)" and "select_range v d1 = (Inr ret, d2)"
  shows "end_minus_start_node v =
           FUNCTION ''minus'' (result_type (end_minus_start_node v)) [end_arg v, start_arg v] \<and>
         modulo_step_node v =
           FUNCTION ''modulo'' (result_type (modulo_step_node v))
             [end_minus_start_node v, step_arg v] \<and>
         modulo_step_eq_zero_node v =
           FUNCTION ''equals'' (result_type (modulo_step_eq_zero_node v))
             [modulo_step_node v, COLUMN DataTypeInt32 (Int64 0)] \<and>
         start_not_null_node v =
           FUNCTION ''assumeNotNull'' (removeNullable (result_type (start_arg v))) [start_arg v] \<and>
         end_not_null_node v =
           FUNCTION ''assumeNotNull'' (removeNullable (result_type (end_arg v))) [end_arg v] \<and>
         step_not_null_node v =
           FUNCTION ''assumeNotNull'' (removeNullable (result_type (step_arg v))) [step_arg v] \<and>
         children ret ! (if any_nullable v then 6 else 0) = modulo_step_eq_zero_node v \<and>
         (eval row (start_arg v) = Inr (Int64 s) \<and> eval row (end_arg v) = Inr (Int64 e) \<and>
          eval row (step_arg v) = Inr (Int64 st) \<and> st \<noteq> 0 \<longrightarrow>
          eval row (modulo_step_eq_zero_node v) =
            Inr (Int64 (if c_modulo (e - s) st = 0 then 1 else 0)))"
proof -
  have b: "ranges_built v" using build_ranges_Inr [OF assms(1)] by blast
  note t = ranges_built_types [OF b]
  have sel: "selected v ret" using select_range_Inr [OF assms(2)] .
  note d = ranges_builtD [OF b]
  have 1: "end_minus_start_node v =
           FUNCTION ''minus'' (result_type (end_minus_start_node v)) [end_arg v, start_arg v]"
    by (rule application_eq [OF d(8)])
  have 2: "modulo_step_node v =
           FUNCTION ''modulo'' (result_type (modulo_step_node v))
             [end_minus_start_node v, step_arg v]"
    by (rule application_eq [OF d(9)])
  have 3: "modulo_step_eq_zero_node v =
           FUNCTION ''equals'' (result_type (modulo_step_eq_zero_node v))
             [modulo_step_node v, COLUMN DataTypeInt32 (Int64 0)]"
    by (rule application_eq [OF d(11)])
  have 4: "start_not_null_node v =
           FUNCTION ''assumeNotNull'' (removeNullable (result_type (start_arg v))) [start_arg v]"
    by (subst t(4) [symmetric]) (rule application_eq [OF d(2)])
  have 5: "end_not_null_node v =
           FUNCTION ''assumeNotNull'' (removeNullable (result_type (end_arg v))) [end_arg v]"
    by (subst t(5) [symmetric]) (rule application_eq [OF d(3)])
  have 6: "step_not_null_node v =
           FUNCTION ''assumeNotNull'' (removeNullable (result_type (step_arg v))) [step_arg v]"
    by (subst t(6) [symmetric]) (rule application_eq [OF d(4)])
  have 7: "children ret ! (if any_nullable v then 6 else 0) = modulo_step_eq_zero_node v"
    using sel by (auto simp: selected_def dest!: application_children)
  have 8: "eval row (start_arg v) = Inr (Int64 s) \<and> eval row (end_arg v) = Inr (Int64 e) \<and>
          eval row (step_arg v) = Inr (Int64 st) \<and> st \<noteq> 0 \<longrightarrow>
          eval row (modulo_step_eq_zero_node v) =
            Inr (Int64 (if c_modulo (e - s) st = 0 then 1 else 0))"
  proof (intro impI, elim conjE)
    assume a: "eval row (start_arg v) = Inr (Int64 s)" "eval row (end_arg v) = Inr (Int64 e)"
      "eval row (step_arg v) = Inr (Int64 st)" "st \<noteq> 0"
    from eval_ranges(4) [OF b a(1) _ a(2) _ a(3)] a(4)
    show "eval row (modulo_step_eq_zero_node v) =
            Inr (Int64 (if c_modulo (e - s) st = 0 then 1 else 0))"
      by (simp add: null_or_def)
  qed
  from 1 2 3 4 5 6 7 8 show ?thesis by blast
qed

theorem remainder_from_arguments_witness:
  "\<exists>v. built_nodes
     \<lparr>arguments = [Literal DataTypeInt32 (Int64 1), Literal DataTypeInt32 (Int64 10),
                   Literal DataTypeInt32 (Int64 3)],
      output_type = DataTypeArray DataTypeInt32\<rparr> [] = Some v \<and>
     modulo_step_node v =
       FUNCTION ''modulo'' (result_type (modulo_step_node v))
         [end_minus_start_node v, COLUMN DataTypeInt32 (Int64 3)] \<and>
     eval empty_row (modulo_step_eq_zero_node v) = Inr (Int64 1)"
proof -
  let ?c = "\<lparr>arguments = [Literal DataTypeInt32 (Int64 1), Literal DataTypeInt32 (Int64 10),
                   Literal DataTypeInt32 (Int64 3)],
      output_type = DataTypeArray DataTypeInt32\<rparr>"
  obtain v d1 where v: "build_ranges ?c [] = (Inr v, d1)"
    using build_ranges_succeeds [of ?c "[]"] by (auto simp: integer_type_def)
  note b = build_ranges_Inr [OF v]
  obtain ret d2 where ret: "select_range v d1 = (Inr ret, d2)"
    using select_range_succeeds b by blast
  have a: "start_arg v = COLUMN DataTypeInt32 (Int64 1)" "end_arg v = COLUMN DataTypeInt32 (Int64 10)"
    "step_arg v = COLUMN DataTypeInt32 (Int64 3)"
    using b by simp_all
  from remainder_from_arguments [OF v ret, of empty_row 1 10 3] a built_nodes_eq [OF v]
  show ?thesis by (simp add: c_modulo_def)
qed

text \<open>
  C7 as stated fails: in \<open>sequence(1, 10, 3)\<close> the divisor of the remainder is the
  argument \<open>3\<close> itself, not its \<open>assumeNotNull\<close> projection.
\<close>

theorem remainder_from_projections_counterexample:
  "map_option remainder_from_projections
     (built_nodes
        \<lparr>arguments = [Literal DataTypeInt32 (Int64 1), Literal DataTypeInt32 (Int64 10),
                      Literal DataTypeInt32 (Int64 3)],
         output_type = DataTypeArray DataTypeInt32\<rparr> []) = Some False"
proof -
  let ?c = "\<lparr>arguments = [Literal DataTypeInt32 (Int64 1), Literal DataTypeInt32 (Int64 10),
                   Literal DataTypeInt32 (Int64 3)],
      output_type = DataTypeArray DataTypeInt32\<rparr>"
  obtain v d1 where v: "build_ranges ?c [] = (Inr v, d1)"
    using build_ranges_succeeds [of ?c "[]"] by (auto simp: integer_type_def)
  note b = build_ranges_Inr [OF v]
  have st: "step_arg v = COLUMN DataTypeInt32 (Int64 3)" using b by simp
  have "ranges_built v" using b by blast
  then have ch: "children (modulo_step_node v) = [end_minus_start_node v, step_arg v]"
    and app: "application ''assumeNotNull'' [step_arg v] (step_not_null_node v)"
    by (auto simp: ranges_built_def dest: application_children)
  have "step_not_null_node v =
      FUNCTION ''assumeNotNull'' (result_type (step_not_null_node v)) [step_arg v]"
    using application_eq [OF app] .
  then have "step_not_null_node v \<noteq> COLUMN DataTypeInt32 (Int64 3)"
    by (metis Node.distinct(5))
  then have "\<not> remainder_from_projections v"
    using st ch by (simp add: remainder_from_projections_def)
  then show ?thesis by (simp add: built_nodes_eq [OF v])
qed

text \<open>
  C8, as amended. When none of the declared types of \<open>start\<close>, \<open>end\<close> and the step after
  defaulting is nullable, the node selected by \<open>parse\<close> is the two-way conditional
  \<open>if(inclusive, rangeIncl, rangeExcl)\<close>, and \<open>parse\<close> returns it as it is when the caller
  expects its type. Its subtree holds no multi-way conditional and no null constant,
  and one application of \<open>isNull\<close>, the one to the step inside the step of the ranges,
  apart from what the subtrees of the arguments themselves hold.
\<close>

theorem no_null_branch_when_not_nullable:
  assumes "build_ranges c dag = (Inr v, d1)" and "select_range v d1 = (Inr ret, d2)"
    and "\<not> isNullable (result_type (start_arg v))"
    and "\<not> isNullable (result_type (end_arg v))"
    and "\<not> isNullable (result_type (step_arg v))"
  shows "ret = FUNCTION ''if'' (result_type ret)
                 [modulo_step_eq_zero_node v, range_1_node v, range_2_node v] \<and>
         parse c dag = convertNodeTypeIfNeeded c ret d2 \<and>
         (output_type c = result_type ret \<longrightarrow> parse c dag = (Inr ret, d2)) \<and>
         step_is_null_node v \<in> set (subnodes ret) \<and>
         is_null_guard (step_is_null_node v) \<and>
         (\<forall>m\<in>set (subnodes ret). is_null_guard m \<longrightarrow>
            m = step_is_null_node v \<or>
            m \<in> set (subnodes (start_arg v)) \<or>
            m \<in> set (subnodes (end_arg v)) \<or>
            m \<in> set (subnodes (step_arg v)))"
proof -
  have b: "ranges_built v" using build_ranges_Inr [OF assms(1)] by blast
  note d = ranges_builtD [OF b]
  have nn: "\<not> any_nullable v" using assms(3,4,5) by (simp add: any_nullable_def)
  have app: "application ''if'' [modulo_step_eq_zero_node v, range_1_node v, range_2_node v] ret"
    using select_range_Inr [OF assms(2)] nn by (simp add: selected_def)
  have 1: "ret = FUNCTION ''if'' (result_type ret)
                 [modulo_step_eq_zero_node v, range_1_node v, range_2_node v]"
    by (rule application_eq [OF app])
  have 2: "parse c dag = convertNodeTypeIfNeeded c ret d2"
    by (rule parse_stages [OF assms(1,2)])
  have 3: "output_type c = result_type ret \<longrightarrow> parse c dag = (Inr ret, d2)"
    by (simp add: 2 convertNodeTypeIfNeeded_def return_b_def)
  define P where "P m \<longleftrightarrow> (is_null_guard m \<longrightarrow>
            m = step_is_null_node v \<or>
            m \<in> set (subnodes (start_arg v)) \<or>
            m \<in> set (subnodes (end_arg v)) \<or>
            m \<in> set (subnodes (step_arg v)))" for m
  have ps: "\<And>m. m \<in> set (subnodes (start_arg v)) \<Longrightarrow> P m"
    and pe: "\<And>m. m \<in> set (subnodes (end_arg v)) \<Longrightarrow> P m"
    and pst: "\<And>m. m \<in> set (subnodes (step_arg v)) \<Longrightarrow> P m"
    by (simp_all add: P_def)
  have pc: "P (COLUMN DataTypeInt32 (Int64 k))" for k by (simp add: P_def)
  have ng: "P n" if "application f args n" "f \<noteq> ''isNull''" "f \<noteq> ''multiIf''" for f args n
    using is_null_guard_application [OF that(1)] that(2,3) by (simp add: P_def)
  have sn: "\<forall>m\<in>set (subnodes (start_not_null_node v)). P m"
    by (rule subnodes_application_all [OF d(2)]) (auto intro: ng [OF d(2)] ps)
  have en: "\<forall>m\<in>set (subnodes (end_not_null_node v)). P m"
    by (rule subnodes_application_all [OF d(3)]) (auto intro: ng [OF d(3)] pe)
  have stn: "\<forall>m\<in>set (subnodes (step_not_null_node v)). P m"
    by (rule subnodes_application_all [OF d(4)]) (auto intro: ng [OF d(4)] pst)
  have istn: "\<forall>m\<in>set (subnodes (step_is_null_node v)). P m"
    by (rule subnodes_application_all [OF d(7)]) (auto simp: P_def intro: pst)
  have em: "\<forall>m\<in>set (subnodes (end_minus_start_node v)). P m"
    by (rule subnodes_application_all [OF d(8)]) (auto intro: ng [OF d(8)] ps pe)
  have ms: "\<forall>m\<in>set (subnodes (modulo_step_node v)). P m"
    by (rule subnodes_application_all [OF d(9)]) (use em in \<open>auto intro: ng [OF d(9)] pst\<close>)
  have eq: "\<forall>m\<in>set (subnodes (modulo_step_eq_zero_node v)). P m"
    by (rule subnodes_application_all [OF d(11)]) (use ms in \<open>auto intro: ng [OF d(11)] pc\<close>)
  have tr: "\<forall>m\<in>set (subnodes (tricky_step_node v)). P m"
    by (rule subnodes_application_all [OF d(12)]) (use istn stn in \<open>auto intro: ng [OF d(12)] pc\<close>)
  have ep: "\<forall>m\<in>set (subnodes (end_plus_step_node v)). P m"
    by (rule subnodes_application_all [OF d(13)]) (use en stn in \<open>auto intro: ng [OF d(13)]\<close>)
  have r1: "\<forall>m\<in>set (subnodes (range_1_node v)). P m"
    by (rule subnodes_application_all [OF d(14)]) (use sn ep tr in \<open>auto intro: ng [OF d(14)]\<close>)
  have r2: "\<forall>m\<in>set (subnodes (range_2_node v)). P m"
    by (rule subnodes_application_all [OF d(15)]) (use sn en tr in \<open>auto intro: ng [OF d(15)]\<close>)
  have "\<forall>m\<in>set (subnodes ret). P m"
    by (rule subnodes_application_all [OF app]) (use eq r1 r2 in \<open>auto intro: ng [OF app]\<close>)
  then have 6: "\<forall>m\<in>set (subnodes ret). is_null_guard m \<longrightarrow>
            m = step_is_null_node v \<or>
            m \<in> set (subnodes (start_arg v)) \<or>
            m \<in> set (subnodes (end_arg v)) \<or>
            m \<in> set (subnodes (step_arg v))"
    by (simp add: P_def)
  have 4: "step_is_null_node v \<in> set (subnodes ret)"
    by (rule step_is_null_reachable [OF b app])
  have 5: "is_null_guard (step_is_null_node v)"
    by (simp add: is_null_guard_application [OF d(7)])
  show ?thesis
    by (intro conjI) (rule 1 2 3 4 5 6)+
qed

theorem no_null_branch_when_not_nullable_witness:
  "\<exists>v d1 ret d2.
     build_ranges
       \<lparr>arguments = [Literal DataTypeInt32 (Int64 1), Literal DataTypeInt32 (Int64 10),
                     Literal DataTypeInt32 (Int64 3)],
        output_type = DataTypeArray DataTypeInt32\<rparr> [] = (Inr v, d1) \<and>
     select_range v d1 = (Inr ret, d2) \<and>
     ret = FUNCTION ''if'' (result_type ret)
             [modulo_step_eq_zero_node v, range_1_node v, range_2_node v] \<and>
     (\<forall>m\<in>set (subnodes ret). is_null_guard m \<longrightarrow>
        m = FUNCTION ''isNull'' DataTypeUInt8 [COLUMN DataTypeInt32 (Int64 3)])"
proof -
  let ?c = "\<lparr>arguments = [Literal DataTypeInt32 (Int64 1), Literal DataTypeInt32 (Int64 10),
                   Literal DataTypeInt32 (Int64 3)],
      output_type = DataTypeArray DataTypeInt32\<rparr>"
  have len: "length (arguments ?c) = 2 \<or> length (arguments ?c) = 3" by simp
  have typed: "list_all (\<lambda>a. integer_type (result_type (expr_node a))) (arguments ?c)"
    by (simp add: integer_type_def)
  have out: "integer_array_type (output_type ?c)" by (simp add: integer_array_type_def)
  obtain v d1 ret d2 n d3 where v: "build_ranges ?c [] = (Inr v, d1)"
    and ret: "select_range v d1 = (Inr ret, d2)"
    and n: "parse ?c [] = (Inr n, d3)"
    using parse_succeeds_ex [OF len typed out, of "[]"] by (elim exE conjE)
  note b = build_ranges_Inr [OF v]
  have a: "start_arg v = COLUMN DataTypeInt32 (Int64 1)" "end_arg v = COLUMN DataTypeInt32 (Int64 10)"
    "step_arg v = COLUMN DataTypeInt32 (Int64 3)"
    using b by simp_all
  have built: "ranges_built v" using b by blast
  have isn: "step_is_null_node v = FUNCTION ''isNull'' DataTypeUInt8 [COLUMN DataTypeInt32 (Int64 3)]"
    using application_eq [OF ranges_builtD(7) [OF built]] ranges_built_types(9) [OF built]
    by (simp add: a)
  note th = no_null_branch_when_not_nullable [OF v ret]
  have 1: "ret = FUNCTION ''if'' (result_type ret)
             [modulo_step_eq_zero_node v, range_1_node v, range_2_node v]"
    using th by (simp add: a)
  have 2: "\<forall>m\<in>set (subnodes ret). is_null_guard m \<longrightarrow>
        m = FUNCTION ''isNull'' DataTypeUInt8 [COLUMN DataTypeInt32 (Int64 3)]"
    using th by (auto simp: a isn)
  from v ret 1 2 show ?thesis by blast
qed

text \<open>
  C8 as stated fails: the subtree selected for \<open>sequence(1, 10, 3)\<close>, whose arguments
  are not nullable, holds the node \<open>isNull(3)\<close>.
\<close>

theorem null_guard_counterexample:
  "map_option has_null_guard
     (selected_node
        \<lparr>arguments = [Literal DataTypeInt32 (Int64 1), Literal DataTypeInt32 (Int64 10),
                      Literal DataTypeInt32 (Int64 3)],
         output_type = DataTypeArray DataTypeInt32\<rparr> []) = Some True"
proof -
  let ?c = "\<lparr>arguments = [Literal DataTypeInt32 (Int64 1), Literal DataTypeInt32 (Int64 10),
                   Literal DataTypeInt32 (Int64 3)],
      output_type = DataTypeArray DataTypeInt32\<rparr>"
  have len: "length (arguments ?c) = 2 \<or> length (arguments ?c) = 3" by simp
  have typed: "list_all (\<lambda>a. integer_type (result_type (expr_node a))) (arguments ?c)"
    by (simp add: integer_type_def)
  have out: "integer_array_type (output_type ?c)" by (simp add: integer_array_type_def)
  obtain v d1 ret d2 n d3 where v: "build_ranges ?c [] = (Inr v, d1)"
    and ret: "select_range v d1 = (Inr ret, d2)"
    and n: "parse ?c [] = (Inr n, d3)"
    using parse_succeeds_ex [OF len typed out, of "[]"] by (elim exE conjE)
  note b = build_ranges_Inr [OF v]
  have built: "ranges_built v" using b by blast
  have "\<not> any_nullable v" using b by (simp add: any_nullable_def)
  then have app: "application ''if''
      [modulo_step_eq_zero_node v, range_1_node v, range_2_node v] ret"
    using select_range_Inr [OF ret] by (simp add: selected_def)
  have "step_is_null_node v \<in> set (subnodes ret)"
    by (rule step_is_null_reachable [OF built app])
  moreover have "is_null_guard (step_is_null_node v)"
    by (simp add: is_null_guard_application [OF ranges_builtD(7) [OF built]])
  ultimately have "has_null_guard ret"
    unfolding has_null_guard_def list_ex_iff by blast
  then show ?thesis by (simp add: selected_node_eq [OF v ret])
qed

text \<open>
  C10. \<open>getRightSampleBlock\<close> returns the sample block of the stored metadata with every
  column converted to nullable if nulls are used and the join kind is left or full, and
  the block as stored otherwise; the object is as it was.
\<close>

theorem right_sample_block:
  "getRightSampleBlock convertColumnToNullable this =
     (if use_nulls this \<and> (kind this = Left \<or> kind this = Full)
      then map convertColumnToNullable (getSampleBlock (storage_metadata this))
      else getSampleBlock (storage_metadata this),
      this)"
  by (cases "kind this") (simp_all add: getRightSampleBlock_def)

theorem right_sample_block_witness:
  "getRightSampleBlock (\<lambda>col. col\<lparr>column_type := makeNullable (column_type col)\<rparr>)
     \<lparr>storage_metadata = \<lparr>metadata_columns =
         [\<lparr>column_name = ''k'', column_type = DataTypeInt32\<rparr>]\<rparr>,
      sample_block = [], key_names = [''k''], use_nulls = True, kind = Left,
      overwrite = False\<rparr> =
     ([\<lparr>column_name = ''k'', column_type = DataTypeNullable DataTypeInt32\<rparr>],
      \<lparr>storage_metadata = \<lparr>metadata_columns =
         [\<lparr>column_name = ''k'', column_type = DataTypeInt32\<rparr>]\<rparr>,
      sample_block = [], key_names = [''k''], use_nulls = True, kind = Left,
      overwrite = False\<rparr>)"
  using right_sample_block [of "\<lambda>col. col\<lparr>column_type := makeNullable (column_type col)\<rparr>"
     "\<lparr>storage_metadata = \<lparr>metadata_columns =
         [\<lparr>column_name = ''k'', column_type = DataTypeInt32\<rparr>]\<rparr>,
      sample_block = [], key_names = [''k''], use_nulls = True, kind = Left,
      overwrite = False\<rparr>"]
  by (simp add: getSampleBlock_def makeNullable_def)

end
